theory Spec2Isabelle
  imports Complex_Main "HOL-Library.Multiset"
begin

section \<open>Python values and failures\<close>

text \<open>
  The exceptions the two libraries can raise from their own statements;
  \<open>OSError\<close> stands for any failure of \<open>open\<close> other than a missing file.

  Python floats are read as real numbers. Sums, products and quotients are exact (the
  rounding of each operation is left out), and a float division raises
  \<open>ZeroDivisionError\<close> exactly when the divisor is zero. A float can also be
  infinite or not a number, which no real is: \<open>NotFinite\<close> is not an exception of
  Python but the mark of a run in which such a value arises. Python carries on with
  it; the model stops there and says nothing about the rest of the run.
\<close>

datatype py_error =
    KeyError string
  | ValueError
  | IndexError
  | ZeroDivisionError
  | OverflowError
  | FileNotFoundError
  | OSError
  | NotFinite

definition bindE :: "py_error + 'a \<Rightarrow> ('a \<Rightarrow> py_error + 'b) \<Rightarrow> py_error + 'b" where
  "bindE m f = (case m of Inl e \<Rightarrow> Inl e | Inr v \<Rightarrow> f v)"

definition py_div :: "real \<Rightarrow> real \<Rightarrow> py_error + real" where
  "py_div a b = (if b = 0 then Inl ZeroDivisionError else Inr (a / b))"

definition radians :: "real \<Rightarrow> real" where
  "radians d = d * pi / 180"

definition degrees :: "real \<Rightarrow> real" where
  "degrees r = r * 180 / pi"

text \<open>
  The range of the doubles. A real of magnitude \<open>2 ^ 1024 - 2 ^ 970\<close> or more
  rounds to infinity. \<open>math.pow(x, 2)\<close> raises \<open>OverflowError\<close> when \<open>x\<close> is
  finite and its square is not; when \<open>x\<close> is already infinite it returns infinity.
\<close>

definition overflows :: "real \<Rightarrow> bool" where
  "overflows r = (2 ^ 1024 - 2 ^ 970 \<le> \<bar>r\<bar>)"

definition math_pow2 :: "real \<Rightarrow> py_error + real" where
  "math_pow2 x =
     (if overflows x then Inl NotFinite
      else if overflows (x ^ 2) then Inl OverflowError
      else Inr (x ^ 2))"

text \<open>
  \<open>math.cos\<close> and \<open>math.tan\<close>. No double is a multiple of \<open>pi / 2\<close> other than
  zero, so on doubles the cosine is never zero and the tangent is zero only at zero
  and never infinite. Where the real function has a zero or a pole, the value is the
  one that Python computes at the double next to it: for the cosine at 90 degrees
  \<open>6.123233995736766e-17\<close>, for the tangent at 90 degrees \<open>1.633123935319537e+16\<close>
  and at 180 degrees \<open>-1.2246467991473532e-16\<close>. These are the singular points that
  a rotated-rectangle angle between -90 and 0 and a field of view up to 180 degrees
  can reach; the further ones are given the same values, with the sign of the
  argument for the tangent.
\<close>

definition math_cos :: "real \<Rightarrow> real" where
  "math_cos x = (if cos x = 0 then 6123233995736766 / 10 ^ 32 else cos x)"

definition tan_singular :: "real \<Rightarrow> real" where
  "tan_singular x =
     (if cos x = 0 then 16331239353195370 else - (12246467991473532 / 10 ^ 32))"

definition math_tan :: "real \<Rightarrow> real" where
  "math_tan x =
     (if x = 0 \<or> (sin x \<noteq> 0 \<and> cos x \<noteq> 0) then tan x
      else if 0 < x then tan_singular x else - tan_singular (- x))"

subsection \<open>Strings\<close>

text \<open>
  \<open>str.strip()\<close>, \<open>str.split(',')\<close> and \<open>str.upper()\<close> on ASCII text.
  The white space of \<open>strip\<close> is the ASCII part of \<open>str.isspace\<close>:
  codes 9 to 13, 28 to 31 and 32. The conversions \<open>int\<close> and \<open>float\<close> drop
  less around a number: codes 9 to 13 and 32 only.
\<close>

definition py_isspace :: "char \<Rightarrow> bool" where
  "py_isspace c = (let n = (of_char c :: nat) in (9 \<le> n \<and> n \<le> 13) \<or> (28 \<le> n \<and> n \<le> 32))"

definition py_strip :: "string \<Rightarrow> string" where
  "py_strip s = rev (dropWhile py_isspace (rev (dropWhile py_isspace s)))"

definition num_isspace :: "char \<Rightarrow> bool" where
  "num_isspace c = (let n = (of_char c :: nat) in (9 \<le> n \<and> n \<le> 13) \<or> n = 32)"

definition num_strip :: "string \<Rightarrow> string" where
  "num_strip s = rev (dropWhile num_isspace (rev (dropWhile num_isspace s)))"

definition py_upper_char :: "char \<Rightarrow> char" where
  "py_upper_char c =
     (case map_of (zip ''abcdefghijklmnopqrstuvwxyz'' ''ABCDEFGHIJKLMNOPQRSTUVWXYZ'') c of
        None \<Rightarrow> c
      | Some u \<Rightarrow> u)"

definition py_upper :: "string \<Rightarrow> string" where
  "py_upper s = map py_upper_char s"

fun py_split :: "char \<Rightarrow> string \<Rightarrow> string list" where
  "py_split sep [] = [[]]"
| "py_split sep (c # cs) =
     (if c = sep then [] # py_split sep cs
      else (case py_split sep cs of [] \<Rightarrow> [[c]] | w # ws \<Rightarrow> (c # w) # ws))"

definition py_index :: "'a list \<Rightarrow> nat \<Rightarrow> py_error + 'a" where
  "py_index xs i = (if i < length xs then Inr (xs ! i) else Inl IndexError)"

subsection \<open>The conversions \<open>int(str)\<close> and \<open>float(str)\<close>\<close>

text \<open>
  Decimal literals as Python reads them from a string: surrounding white space is
  dropped, one sign is allowed, and single underscores may stand between digits.
  \<open>float\<close> also takes a fraction and a decimal exponent, and, in any mix of
  upper and lower case, the spellings \<open>inf\<close>, \<open>infinity\<close> and \<open>nan\<close>. A
  literal too large for a double gives infinity, and one of magnitude
  \<open>1 / 2 ^ 1075\<close> or less gives zero. Otherwise the value is the literal's own: the
  rounding to the nearest double is left out.
\<close>

definition digit_val :: "char \<Rightarrow> nat option" where
  "digit_val c =
     (let n = (of_char c :: nat) in if 48 \<le> n \<and> n \<le> 57 then Some (n - 48) else None)"

fun parse_digits :: "string \<Rightarrow> nat \<Rightarrow> bool \<Rightarrow> nat option" where
  "parse_digits [] acc prev_digit = (if prev_digit then Some acc else None)"
| "parse_digits (c # cs) acc prev_digit =
     (if c = CHR ''_'' then
        (if prev_digit \<and> cs \<noteq> [] then parse_digits cs acc False else None)
      else (case digit_val c of
              None \<Rightarrow> None
            | Some d \<Rightarrow> parse_digits cs (10 * acc + d) True))"

definition count_digits :: "string \<Rightarrow> nat" where
  "count_digits s = length (filter (\<lambda>c. c \<noteq> CHR ''_'') s)"

definition parse_signed :: "string \<Rightarrow> (bool \<times> string)" where
  "parse_signed s =
     (case s of
        [] \<Rightarrow> (False, [])
      | c # cs \<Rightarrow> if c = CHR ''-'' then (True, cs)
                 else if c = CHR ''+'' then (False, cs) else (False, s))"

definition py_int :: "string \<Rightarrow> py_error + int" where
  "py_int v =
     (case parse_signed (num_strip v) of
        (neg, ds) \<Rightarrow>
          (case parse_digits ds 0 False of
             None \<Rightarrow> Inl ValueError
           | Some n \<Rightarrow> Inr (if neg then - int n else int n)))"

definition parse_mantissa :: "string \<Rightarrow> real option" where
  "parse_mantissa m =
     (let ip = takeWhile (\<lambda>c. c \<noteq> CHR ''.'') m;
          rest = dropWhile (\<lambda>c. c \<noteq> CHR ''.'') m
      in case rest of
           [] \<Rightarrow> map_option real (parse_digits ip 0 False)
         | _ # fp \<Rightarrow>
             if ip = [] \<and> fp = [] then None
             else (case (if ip = [] then Some 0 else parse_digits ip 0 False,
                         if fp = [] then Some 0 else parse_digits fp 0 False) of
                     (Some a, Some b) \<Rightarrow> Some (real a + real b / 10 ^ count_digits fp)
                   | _ \<Rightarrow> None))"

definition is_exp_mark :: "char \<Rightarrow> bool" where
  "is_exp_mark c = (c = CHR ''e'' \<or> c = CHR ''E'')"

definition parse_decimal :: "string \<Rightarrow> real option" where
  "parse_decimal body =
     (let m = takeWhile (\<lambda>c. \<not> is_exp_mark c) body;
          rest = dropWhile (\<lambda>c. \<not> is_exp_mark c) body
      in case parse_mantissa m of
           None \<Rightarrow> None
         | Some mv \<Rightarrow>
             (case rest of
                [] \<Rightarrow> Some mv
              | _ # ex \<Rightarrow>
                  (case parse_signed ex of
                     (eneg, eds) \<Rightarrow>
                       (case parse_digits eds 0 False of
                          None \<Rightarrow> None
                        | Some k \<Rightarrow> Some (if eneg then mv / 10 ^ k else mv * 10 ^ k)))))"

definition float_value :: "real \<Rightarrow> py_error + real" where
  "float_value r =
     (if overflows r then Inl NotFinite
      else if \<bar>r\<bar> \<le> 1 / 2 ^ 1075 then Inr 0
      else Inr r)"

definition py_float :: "string \<Rightarrow> py_error + real" where
  "py_float v =
     (case parse_signed (num_strip v) of
        (neg, body) \<Rightarrow>
          if py_upper body \<in> set [''INF'', ''INFINITY'', ''NAN''] then Inl NotFinite
          else (case parse_decimal body of
                  None \<Rightarrow> Inl ValueError
                | Some r \<Rightarrow> float_value (if neg then - r else r)))"

section \<open>The vision library's state\<close>

text \<open>
  \<open>VisionLibrary\<close> keeps its calibration in class attributes: the file name and
  one dictionary per section, from upper-cased key to the raw text of the value.
\<close>

record vision_state =
  visionFile :: string
  ball_values :: "string \<rightharpoonup> string"
  goal_values :: "string \<rightharpoonup> string"
  tape_values :: "string \<rightharpoonup> string"

text \<open>
  A method of the class is a function from the state before to a result (a value or
  the exception that escapes) and the state after.
\<close>

type_synonym 'a vis = "vision_state \<Rightarrow> (py_error + 'a) \<times> vision_state"

definition returnV :: "'a \<Rightarrow> 'a vis" where
  "returnV v = (\<lambda>s. (Inr v, s))"

definition bindV :: "'a vis \<Rightarrow> ('a \<Rightarrow> 'b vis) \<Rightarrow> 'b vis" where
  "bindV m f = (\<lambda>s. case m s of (Inl e, s') \<Rightarrow> (Inl e, s') | (Inr v, s') \<Rightarrow> f v s')"

definition liftV :: "py_error + 'a \<Rightarrow> 'a vis" where
  "liftV r = (\<lambda>s. (r, s))"

definition get_ball :: "string \<Rightarrow> string vis" where
  "get_ball k = (\<lambda>s. (case ball_values s k of None \<Rightarrow> Inl (KeyError k) | Some v \<Rightarrow> Inr v, s))"

definition get_tape :: "string \<Rightarrow> string vis" where
  "get_tape k = (\<lambda>s. (case tape_values s k of None \<Rightarrow> Inl (KeyError k) | Some v \<Rightarrow> Inr v, s))"

definition set_ball :: "string \<Rightarrow> string \<Rightarrow> unit vis" where
  "set_ball k v = (\<lambda>s. (Inr (), s\<lparr>ball_values := (ball_values s)(k \<mapsto> v)\<rparr>))"

definition set_goal :: "string \<Rightarrow> string \<Rightarrow> unit vis" where
  "set_goal k v = (\<lambda>s. (Inr (), s\<lparr>goal_values := (goal_values s)(k \<mapsto> v)\<rparr>))"

definition set_tape :: "string \<Rightarrow> string \<Rightarrow> unit vis" where
  "set_tape k v = (\<lambda>s. (Inr (), s\<lparr>tape_values := (tape_values s)(k \<mapsto> v)\<rparr>))"

section \<open>Reading the vision settings file\<close>

text \<open>
  The file system is a function from a path to what \<open>open(file, 'r')\<close> followed by
  \<open>readlines()\<close> gives: the lines, or the exception of \<open>open\<close>.

  One pass of the loop body of \<open>read_vision_file\<close>: \<open>value_section\<close> is the only
  local carried from line to line (\<open>new_section\<close> is set afresh by every line).
  In the assignment \<open>d[split_line[0].upper()] = split_line[1]\<close> the right-hand side
  is evaluated first, so a line without a comma raises \<open>IndexError\<close> before anything
  is stored.
\<close>

definition section_of :: "string \<Rightarrow> string \<Rightarrow> string \<times> bool" where
  "section_of f0 value_section =
     (if py_upper f0 = ''BALL:'' then (''BALL'', True)
      else if py_upper f0 = ''GOALTARGET:'' then (''GOALTARGET'', True)
      else if py_upper f0 = ''VISIONTAPE:'' then (''VISIONTAPE'', True)
      else if f0 = '''' then ('''', True)
      else (value_section, False))"

definition store_line :: "string list \<Rightarrow> string \<Rightarrow> string \<Rightarrow> unit vis" where
  "store_line split_line f0 value_section =
     (if value_section = ''BALL'' then
        bindV (liftV (py_index split_line 1)) (\<lambda>v. set_ball (py_upper f0) v)
      else if value_section = ''GOALTARGET'' then
        bindV (liftV (py_index split_line 1)) (\<lambda>v. set_goal (py_upper f0) v)
      else if value_section = ''VISIONTAPE'' then
        bindV (liftV (py_index split_line 1)) (\<lambda>v. set_tape (py_upper f0) v)
      else returnV ())"

fun process_lines :: "string list \<Rightarrow> string \<Rightarrow> unit vis" where
  "process_lines [] value_section s = (Inr (), s)"
| "process_lines (line # rest) value_section s =
     (let split_line = py_split CHR '','' (py_strip line) in
      case py_index split_line 0 of
        Inl e \<Rightarrow> (Inl e, s)
      | Inr f0 \<Rightarrow>
          (case section_of f0 value_section of
             (sec, new_section) \<Rightarrow>
               if new_section = False then
                 (case store_line split_line f0 sec s of
                    (Inl e, s') \<Rightarrow> (Inl e, s')
                  | (Inr _, s') \<Rightarrow> process_lines rest sec s')
               else process_lines rest sec s))"

definition read_vision_file :: "(string \<Rightarrow> py_error + string list) \<Rightarrow> string \<Rightarrow> bool vis" where
  "read_vision_file fs file s =
     (case fs file of
        Inl e \<Rightarrow> if e = FileNotFoundError then (Inr False, s) else (Inl e, s)
      | Inr value_list \<Rightarrow>
          (case process_lines value_list '''' s of
             (Inl e, s') \<Rightarrow> if e = FileNotFoundError then (Inr False, s') else (Inl e, s')
           | (Inr _, s') \<Rightarrow> (Inr True, s')))"

definition init :: "(string \<Rightarrow> py_error + string list) \<Rightarrow> string \<Rightarrow> unit vis" where
  "init fs visionfile s =
     (case read_vision_file fs visionfile (s\<lparr>visionFile := visionfile\<rparr>) of
        (Inl e, s') \<Rightarrow> (Inl e, s')
      | (Inr _, s') \<Rightarrow> (Inr (), s'))"

section \<open>The image-processing backend\<close>

text \<open>
  OpenCV and NumPy are used as given: the model takes their functions as a record and
  makes no assumption about what they compute. \<open>'img\<close> is the type of images and
  masks, \<open>'c\<close> the type of contours.
\<close>

type_synonym hsv = "int \<times> int \<times> int"
type_synonym rotated_rect = "(real \<times> real) \<times> (real \<times> real) \<times> real"

record ('img, 'c) cv_backend =
  GaussianBlur :: "'img \<Rightarrow> 'img"
  cvtColor :: "'img \<Rightarrow> 'img"
  inRange :: "'img \<Rightarrow> hsv \<Rightarrow> hsv \<Rightarrow> 'img"
  findContours :: "'img \<Rightarrow> 'c list"
  contourArea :: "'c \<Rightarrow> real"
  minEnclosingCircle :: "'c \<Rightarrow> (real \<times> real) \<times> real"
  boundingRect :: "'c \<Rightarrow> int \<times> int \<times> int \<times> int"
  minAreaRect :: "'c \<Rightarrow> rotated_rect"
  boxPoints :: "rotated_rect \<Rightarrow> (real \<times> real) list"

definition process_image_contours :: "('img, 'c) cv_backend \<Rightarrow> 'img \<Rightarrow> hsv \<Rightarrow> hsv \<Rightarrow> 'c list" where
  "process_image_contours be imgRaw hsvMin hsvMax =
     (let blur = GaussianBlur be imgRaw;
          hsv = cvtColor be blur;
          mask = inRange be hsv hsvMin hsvMax
      in findContours be mask)"

text \<open>\<open>np.int0\<close> truncates every coordinate towards zero.\<close>

definition py_trunc :: "real \<Rightarrow> int" where
  "py_trunc r = (if 0 \<le> r then \<lfloor>r\<rfloor> else \<lceil>r\<rceil>)"

definition int0 :: "(real \<times> real) list \<Rightarrow> (int \<times> int) list" where
  "int0 pts = map (\<lambda>(a, b). (py_trunc a, py_trunc b)) pts"

text \<open>
  \<open>sorted(cs, key=f, reverse=True)\<close> is stable: among equal keys the input order
  is kept. \<open>max(cs, key=f)\<close> returns the first element whose key is maximal.
\<close>

definition sorted_reverse :: "('c \<Rightarrow> real) \<Rightarrow> 'c list \<Rightarrow> 'c list" where
  "sorted_reverse f cs = sort_key (\<lambda>c. - f c) cs"

definition py_max_key :: "('c \<Rightarrow> real) \<Rightarrow> 'c list \<Rightarrow> py_error + 'c" where
  "py_max_key f cs =
     (case cs of
        [] \<Rightarrow> Inl ValueError
      | c # rest \<Rightarrow> Inr (foldl (\<lambda>best d. if f d > f best then d else best) c rest))"

section \<open>Reading the HSV bounds\<close>

text \<open>
  Both detectors start with the same six statements, \<open>int(values['HMIN'])\<close> to
  \<open>int(values['VMAX'])\<close> in this order, and build the two bound triples.
\<close>

definition as_int :: "string vis \<Rightarrow> int vis" where
  "as_int m = bindV m (\<lambda>v. liftV (py_int v))"

definition as_float :: "string vis \<Rightarrow> real vis" where
  "as_float m = bindV m (\<lambda>v. liftV (py_float v))"

definition read_hsv :: "(string \<Rightarrow> string vis) \<Rightarrow> (hsv \<times> hsv) vis" where
  "read_hsv get =
     bindV (as_int (get ''HMIN'')) (\<lambda>hMin.
     bindV (as_int (get ''HMAX'')) (\<lambda>hMax.
     bindV (as_int (get ''SMIN'')) (\<lambda>sMin.
     bindV (as_int (get ''SMAX'')) (\<lambda>sMax.
     bindV (as_int (get ''VMIN'')) (\<lambda>vMin.
     bindV (as_int (get ''VMAX'')) (\<lambda>vMax.
       returnV ((hMin, sMin, vMin), (hMax, sMax, vMax))))))))"

section \<open>Finding ball game pieces\<close>

record ball_data =
  ball_x :: real
  ball_y :: real
  ball_radius :: real
  ball_distance :: real
  ball_angle :: real
  ball_offset :: real
  ball_percent :: real

text \<open>The metrics of one accepted circle, statement by statement.\<close>

definition ball_metrics ::
  "real \<Rightarrow> real \<Rightarrow> real \<Rightarrow> real \<Rightarrow> real \<Rightarrow> real \<Rightarrow> real \<Rightarrow> py_error + ball_data" where
  "ball_metrics knownRadius x y radius cameraWidth cameraHeight cameraFOV =
     bindE (py_div knownRadius radius) (\<lambda>inches_per_pixel.
     bindE (py_div cameraWidth (2 * math_tan (radians cameraFOV))) (\<lambda>q.
       let distanceToBall = inches_per_pixel * q;
           offsetInInches = inches_per_pixel * (x - cameraWidth / 2)
       in
     bindE (py_div offsetInInches distanceToBall) (\<lambda>t.
       let angleToBall = degrees (arctan t) in
     bindE (py_div (pi * radius * radius) (cameraWidth * cameraHeight)) (\<lambda>screenPercent.
       Inr \<lparr>ball_x = x, ball_y = y, ball_radius = radius,
            ball_distance = distanceToBall, ball_angle = angleToBall,
            ball_offset = - offsetInInches, ball_percent = screenPercent\<rparr>))))"

text \<open>
  The loop over the sorted contours. The accumulator is \<open>(ballsFound, ballData)\<close>;
  the \<open>else: break\<close> branch returns it as it stands.
\<close>

fun ball_loop ::
  "('img, 'c) cv_backend \<Rightarrow> real \<Rightarrow> real \<Rightarrow> real \<Rightarrow> 'c list \<Rightarrow> nat \<times> ball_data list
     \<Rightarrow> (nat \<times> ball_data list) vis" where
  "ball_loop be cameraWidth cameraHeight cameraFOV [] acc s = (Inr acc, s)"
| "ball_loop be cameraWidth cameraHeight cameraFOV (contour # rest) acc s =
     (case minEnclosingCircle be contour of
        ((x, y), radius) \<Rightarrow>
          bindV (as_int (get_ball ''MINRADIUS'')) (\<lambda>minRadius.
            if radius > of_int minRadius then
              bindV (as_float (get_ball ''RADIUS'')) (\<lambda>knownRadius.
              bindV (liftV (ball_metrics knownRadius x y radius
                              cameraWidth cameraHeight cameraFOV)) (\<lambda>ballDataDict.
                ball_loop be cameraWidth cameraHeight cameraFOV rest
                  (fst acc + 1, snd acc @ [ballDataDict])))
            else returnV acc) s)"

definition detect_game_balls ::
  "('img, 'c) cv_backend \<Rightarrow> 'img \<Rightarrow> real \<Rightarrow> real \<Rightarrow> real \<Rightarrow> (nat \<times> ball_data list) vis" where
  "detect_game_balls be imgRaw cameraWidth cameraHeight cameraFOV =
     bindV (read_hsv get_ball) (\<lambda>(ballHSVMin, ballHSVMax).
       let ballContours = process_image_contours be imgRaw ballHSVMin ballHSVMax in
       if length ballContours > 0 then
         ball_loop be cameraWidth cameraHeight cameraFOV
           (sorted_reverse (contourArea be) ballContours) (0, [])
       else returnV (0, []))"

section \<open>Finding a rectangular tape target\<close>

record tape_camera_values =
  TargetX :: int
  TargetY :: int
  TargetW :: int
  TargetH :: int
  IPP :: real
  Offset :: real

record tape_real_world_values =
  AspectRatio :: real
  CenterOffset :: real
  StraightDistance :: real
  TapeDistance :: real
  WallDistance :: real
  HAngle :: real
  VAngle :: real
  TargetRotation :: real
  BotAngle :: real
  ApparentWidth :: real
  VertOffset :: real

type_synonym tape_result =
  "tape_camera_values \<times> tape_real_world_values \<times> bool \<times> bool
     \<times> rotated_rect option \<times> (int \<times> int) list option"

text \<open>
  What the method returns when no statement of the two \<open>if\<close> blocks has run: the
  initial values of its locals.
\<close>

definition tape_defaults :: tape_result where
  "tape_defaults =
     (\<lparr>TargetX = 1000, TargetY = 1000, TargetW = 1000, TargetH = 1000, IPP = 0, Offset = 0\<rparr>,
      \<lparr>AspectRatio = 0, CenterOffset = 0, StraightDistance = 1000, TapeDistance = 1000,
       WallDistance = 1000, HAngle = 0, VAngle = 0, TargetRotation = 0, BotAngle = 0,
       ApparentWidth = 0, VertOffset = 0\<rparr>,
      False, False, None, None)"

definition camera_angle :: "real \<Rightarrow> real" where
  "camera_angle angle = (if \<bar>angle\<bar> < 45 then \<bar>angle\<bar> else 90 - \<bar>angle\<bar>)"

text \<open>
  The body of \<open>if foundTape:\<close> for a contour that passed the area test, after the
  bounding rectangle, the aspect ratio and the rotated rectangle have been computed.
  In the statement that computes \<open>distanceArg\<close> the left square is evaluated before
  \<open>GOALHEIGHT\<close> is read, and the right square after it.
\<close>

definition tape_real_world ::
  "int \<times> int \<times> int \<times> int \<Rightarrow> real \<Rightarrow> rotated_rect \<Rightarrow> (int \<times> int) list
     \<Rightarrow> real \<Rightarrow> real \<Rightarrow> real \<Rightarrow> real \<Rightarrow> tape_result vis" where
  "tape_real_world bounds aspectRatio rect box imageWidth imageHeight
       cameraFocalLength cameraMountHeight =
     (case bounds of
        (targetX, targetY, targetW, targetH) \<Rightarrow>
          let cameraAngle = camera_angle (snd (snd rect));
              botAngle = 2 * cameraAngle
          in
          bindV (as_float (get_tape ''TAPEWIDTH'')) (\<lambda>tapeWidth.
            let apparentTapeWidth = tapeWidth * math_cos (radians botAngle) in
          bindV (liftV (py_div apparentTapeWidth (of_int targetW))) (\<lambda>inchesPerPixel.
            let horizOffsetPixels = (of_int targetX + of_int targetW / 2) - imageWidth / 2;
                horizOffsetInInches = inchesPerPixel * horizOffsetPixels;
                vertOffsetPixels = (imageHeight / 2) - (of_int targetY - of_int targetH / 2);
                vertOffsetInInches = inchesPerPixel * vertOffsetPixels;
                centerOffset = - horizOffsetInInches
            in
          bindV (liftV (py_div (apparentTapeWidth * cameraFocalLength) (of_int targetW)))
            (\<lambda>straightLineDistance.
          bindV (liftV (math_pow2 straightLineDistance)) (\<lambda>straightSquared.
          bindV (as_float (get_tape ''GOALHEIGHT'')) (\<lambda>goalHeight.
          bindV (liftV (math_pow2 (goalHeight - cameraMountHeight))) (\<lambda>heightSquared.
            let distanceArg = straightSquared - heightSquared;
                distanceToTape = (if distanceArg > 0 then sqrt distanceArg else 1000)
            in
          bindV (liftV (py_div distanceToTape (math_cos (radians botAngle))))
            (\<lambda>distanceToWall.
          bindV (liftV (py_div horizOffsetInInches distanceToTape)) (\<lambda>th.
          bindV (liftV (py_div vertOffsetInInches distanceToTape)) (\<lambda>tv.
          bindV (as_float (get_tape ''LOCKTOLERANCE'')) (\<lambda>lockTolerance.
            returnV
              (\<lparr>TargetX = targetX, TargetY = targetY, TargetW = targetW, TargetH = targetH,
                IPP = inchesPerPixel, Offset = horizOffsetPixels\<rparr>,
               \<lparr>AspectRatio = aspectRatio, CenterOffset = centerOffset,
                StraightDistance = straightLineDistance, TapeDistance = distanceToTape,
                WallDistance = distanceToWall, HAngle = degrees (arctan th),
                VAngle = degrees (arctan tv), TargetRotation = cameraAngle,
                BotAngle = botAngle, ApparentWidth = apparentTapeWidth,
                VertOffset = vertOffsetInInches\<rparr>,
               True, \<bar>horizOffsetInInches\<bar> \<le> lockTolerance, Some rect, Some box))))))))))))"

definition detect_tape_rectangle ::
  "('img, 'c) cv_backend \<Rightarrow> 'img \<Rightarrow> real \<Rightarrow> real \<Rightarrow> real \<Rightarrow> real \<Rightarrow> real \<Rightarrow> real
     \<Rightarrow> tape_result vis" where
  "detect_tape_rectangle be imgRaw imageWidth imageHeight cameraFOV cameraFocalLength
       cameraMountAngle cameraMountHeight =
     bindV (read_hsv get_tape) (\<lambda>(tapeHSVMin, tapeHSVMax).
       let tapeContours = process_image_contours be imgRaw tapeHSVMin tapeHSVMax in
       if length tapeContours > 0 then
         bindV (liftV (py_max_key (contourArea be) tapeContours)) (\<lambda>largestContour.
         bindV (as_int (get_tape ''MINAREA'')) (\<lambda>minArea.
           if contourArea be largestContour > of_int minArea then
             (case boundingRect be largestContour of
                (targetX, targetY, targetW, targetH) \<Rightarrow>
                  bindV (liftV (py_div (of_int targetW) (of_int targetH))) (\<lambda>aspectRatio.
                    let rect = minAreaRect be largestContour;
                        box = int0 (boxPoints be rect)
                    in tape_real_world (targetX, targetY, targetW, targetH) aspectRatio
                         rect box imageWidth imageHeight cameraFocalLength cameraMountHeight))
           else returnV tape_defaults))
       else returnV tape_defaults)"

section \<open>The Navx polling thread\<close>

text \<open>
  The fields of \<open>FRCNavx\<close> that the polling loop and \<open>stop_navx\<close> touch. The
  readings of the board (\<open>GetAngle\<close>, \<open>GetRTCTime\<close>, \<open>GetRTCDate\<close>) are inputs
  of the steps that take them.
\<close>

record navx =
  stopped :: bool
  navx_angle :: real
  navx_time :: "int list"
  navx_date :: "int list"

definition stop_navx :: "navx \<Rightarrow> navx" where
  "stop_navx n = n\<lparr>stopped := True\<rparr>"

text \<open>\<open>round(v, 2)\<close>: to two decimals, a tie going to the even neighbour.\<close>

definition py_round2 :: "real \<Rightarrow> real" where
  "py_round2 v =
     (let y = v * 100; f = \<lfloor>y\<rfloor>; d = y - of_int f
      in of_int (if d < 1 / 2 then f else if 1 / 2 < d then f + 1
                 else if even f then f else f + 1) / 100)"

text \<open>
  Where the thread running \<open>update\<close> stands: before the test of the stop flag,
  before one of the three assignments, in \<open>time.sleep\<close>, or after \<open>return\<close>.
\<close>

datatype navx_pc = AtCheck | AtAngle | AtTime | AtDate | AtSleep | Returned

text \<open>
  One step of the object with its thread: the thread runs its next statement, or
  the caller's thread runs \<open>stop_navx\<close> in between.
\<close>

inductive navx_step :: "navx_pc \<times> navx \<Rightarrow> navx_pc \<times> navx \<Rightarrow> bool" where
  check_stopped: "stopped n \<Longrightarrow> navx_step (AtCheck, n) (Returned, n)"
| check_running: "\<not> stopped n \<Longrightarrow> navx_step (AtCheck, n) (AtAngle, n)"
| read_angle: "navx_step (AtAngle, n) (AtTime, n\<lparr>navx_angle := py_round2 a\<rparr>)"
| read_time: "navx_step (AtTime, n) (AtDate, n\<lparr>navx_time := t\<rparr>)"
| read_date: "navx_step (AtDate, n) (AtSleep, n\<lparr>navx_date := d\<rparr>)"
| sleep: "navx_step (AtSleep, n) (AtCheck, n)"
| call_stop: "navx_step (pc, n) (pc, stop_navx n)"

section \<open>Vocabulary of the statements\<close>

text \<open>
  Each detector reads a key with \<open>int(d[k])\<close> or \<open>float(d[k])\<close>: a missing key
  raises \<open>KeyError\<close>, a malformed value \<open>ValueError\<close>. The following functions
  say what such a read gives on a dictionary, and what the six reads of the HSV bounds
  give together. \<open>ball_of\<close> is the detection that the formulas of
  \<open>detect_game_balls\<close> give for a fitted circle when no division fails.
\<close>

definition lookup_int :: "(string \<rightharpoonup> string) \<Rightarrow> string \<Rightarrow> py_error + int" where
  "lookup_int vals k = (case vals k of None \<Rightarrow> Inl (KeyError k) | Some v \<Rightarrow> py_int v)"

definition lookup_float :: "(string \<rightharpoonup> string) \<Rightarrow> string \<Rightarrow> py_error + real" where
  "lookup_float vals k = (case vals k of None \<Rightarrow> Inl (KeyError k) | Some v \<Rightarrow> py_float v)"

definition hsv_bounds :: "(string \<rightharpoonup> string) \<Rightarrow> py_error + (hsv \<times> hsv)" where
  "hsv_bounds vals =
     bindE (lookup_int vals ''HMIN'') (\<lambda>hMin.
     bindE (lookup_int vals ''HMAX'') (\<lambda>hMax.
     bindE (lookup_int vals ''SMIN'') (\<lambda>sMin.
     bindE (lookup_int vals ''SMAX'') (\<lambda>sMax.
     bindE (lookup_int vals ''VMIN'') (\<lambda>vMin.
     bindE (lookup_int vals ''VMAX'') (\<lambda>vMax.
       Inr ((hMin, sMin, vMin), (hMax, sMax, vMax))))))))"

definition ball_of :: "real \<Rightarrow> real \<Rightarrow> real \<Rightarrow> real \<Rightarrow> (real \<times> real) \<times> real \<Rightarrow> ball_data" where
  "ball_of knownRadius cameraWidth cameraHeight cameraFOV circle =
     (case circle of
        ((x, y), radius) \<Rightarrow>
          \<lparr>ball_x = x, ball_y = y, ball_radius = radius,
           ball_distance = knownRadius / radius * (cameraWidth / (2 * tan (radians cameraFOV))),
           ball_angle = degrees (arctan (knownRadius / radius * (x - cameraWidth / 2)
                          / (knownRadius / radius * (cameraWidth / (2 * tan (radians cameraFOV)))))),
           ball_offset = - (knownRadius / radius * (x - cameraWidth / 2)),
           ball_percent = pi * radius * radius / (cameraWidth * cameraHeight)\<rparr>)"

text \<open>
  A backend for concrete runs: an image is the list of the contours in it, and a
  contour is the tuple of what OpenCV measures on it.
\<close>

record contour_meas =
  m_area :: real
  m_circle :: "(real \<times> real) \<times> real"
  m_bounds :: "int \<times> int \<times> int \<times> int"
  m_rect :: rotated_rect

definition test_backend :: "(contour_meas list, contour_meas) cv_backend" where
  "test_backend =
     \<lparr>GaussianBlur = (\<lambda>img. img), cvtColor = (\<lambda>img. img),
      inRange = (\<lambda>img lo hi. img), findContours = (\<lambda>img. img),
      contourArea = m_area, minEnclosingCircle = m_circle, boundingRect = m_bounds,
      minAreaRect = m_rect, boxPoints = (\<lambda>r. [])\<rparr>"

definition blob :: "real \<Rightarrow> real \<Rightarrow> real \<Rightarrow> real \<Rightarrow> contour_meas" where
  "blob a x y r =
     \<lparr>m_area = a, m_circle = ((x, y), r), m_bounds = (0, 0, 1, 1),
      m_rect = ((0, 0), (1, 1), - 90)\<rparr>"

definition empty_state :: vision_state where
  "empty_state =
     \<lparr>visionFile = '''', ball_values = Map.empty, goal_values = Map.empty,
      tape_values = Map.empty\<rparr>"

definition ball_state :: vision_state where
  "ball_state =
     empty_state\<lparr>ball_values :=
       map_of [(''HMIN'', ''20''), (''HMAX'', ''40''), (''SMIN'', ''100''), (''SMAX'', ''255''),
               (''VMIN'', ''100''), (''VMAX'', ''255''), (''MINRADIUS'', ''4''),
               (''RADIUS'', ''3.5'')]\<rparr>"

definition no_files :: "string \<Rightarrow> py_error + string list" where
  "no_files path = Inl FileNotFoundError"

definition three_balls :: "contour_meas list" where
  "three_balls = [blob 80 100 50 2, blob 100 320 240 5, blob 60 500 400 9]"

definition edge_balls :: "contour_meas list" where
  "edge_balls = [blob 80 100 50 4, blob 100 320 240 5, blob 60 500 400 9]"

text \<open>
  The keys of the six HSV bounds, and the lines that the loader can store without
  raising: a line that opens or closes a section, or one with a comma in it.
\<close>

definition hsv_keys :: "string list" where
  "hsv_keys = [''HMIN'', ''HMAX'', ''SMIN'', ''SMAX'', ''VMIN'', ''VMAX'']"

definition entry_ok :: "string \<Rightarrow> bool" where
  "entry_ok line =
     (let split_line = py_split CHR '','' (py_strip line)
      in 2 \<le> length split_line \<or> snd (section_of (hd split_line) []))"

text \<open>A settings file whose ball section has no \<open>HMIN\<close> and a \<open>SMIN\<close> that is no number.\<close>

definition partial_files :: "string \<Rightarrow> py_error + string list" where
  "partial_files path =
     (if path = ''vision.txt''
      then Inr [''BALL:'' @ [CHR 0x0A], ''HMAX,40'' @ [CHR 0x0A], ''smin,abc'' @ [CHR 0x0A]]
      else Inl FileNotFoundError)"

text \<open>A tape calibration and a contour with a four by two bounding rectangle.\<close>

definition tape_state :: vision_state where
  "tape_state =
     empty_state\<lparr>tape_values :=
       map_of [(''HMIN'', ''50''), (''HMAX'', ''90''), (''SMIN'', ''100''), (''SMAX'', ''255''),
               (''VMIN'', ''100''), (''VMAX'', ''255''), (''MINAREA'', ''30''),
               (''TAPEWIDTH'', ''4.0''), (''GOALHEIGHT'', ''90.0''),
               (''LOCKTOLERANCE'', ''2.0'')]\<rparr>"

definition strip :: "real \<Rightarrow> contour_meas" where
  "strip a =
     \<lparr>m_area = a, m_circle = ((322, 201), 3), m_bounds = (320, 200, 4, 2),
      m_rect = ((322, 201), (4, 2), - 90)\<rparr>"

text \<open>
  The same contour turned by 45 degrees, and the calibration with a goal height of
  \<open>1e200\<close> inches.
\<close>

definition tilted :: "real \<Rightarrow> contour_meas" where
  "tilted a = (strip a)\<lparr>m_rect := ((322, 201), (4, 2), - 45)\<rparr>"

definition tall_goal_state :: vision_state where
  "tall_goal_state =
     tape_state\<lparr>tape_values := (tape_values tape_state)(''GOALHEIGHT'' \<mapsto> ''1e200'')\<rparr>"

text \<open>The camera values that stand for "nothing found".\<close>

definition camera_sentinels :: tape_camera_values where
  "camera_sentinels =
     \<lparr>TargetX = 1000, TargetY = 1000, TargetW = 1000, TargetH = 1000, IPP = 0, Offset = 0\<rparr>"

text \<open>A method reads only when the state it returns is the state it was given.\<close>

definition reads_only :: "'a vis \<Rightarrow> bool" where
  "reads_only m = (\<forall>s. snd (m s) = s)"

text \<open>A Navx object whose thread is polling.\<close>

definition polling_navx :: navx where
  "polling_navx = \<lparr>stopped = False, navx_angle = 0, navx_time = [], navx_date = []\<rparr>"

section \<open>Basic facts\<close>

lemma math_tan_regular: "tan x \<noteq> 0 \<Longrightarrow> math_tan x = tan x"
  by (auto simp: math_tan_def tan_def)

lemma math_cos_nonzero: "math_cos x \<noteq> 0"
  by (simp add: math_cos_def)

lemma math_cos_zero_angle: "math_cos (radians 0) = 1"
  by (simp add: math_cos_def radians_def)

lemma overflows_square:
  assumes "\<not> overflows (x ^ 2)"
  shows "\<not> overflows x"
proof
  assume "overflows x"
  then have x: "2 ^ 1024 - 2 ^ 970 \<le> \<bar>x\<bar>" by (simp add: overflows_def)
  have "(1::real) \<le> 2 ^ 1024 - 2 ^ 970" by simp
  with x have "1 \<le> \<bar>x\<bar>" by linarith
  then have "\<bar>x\<bar> * 1 \<le> \<bar>x\<bar> * \<bar>x\<bar>" by (intro mult_left_mono) auto
  then have "\<bar>x\<bar> \<le> \<bar>x ^ 2\<bar>" by (simp add: power2_eq_square abs_mult)
  with x have "overflows (x ^ 2)" unfolding overflows_def by linarith
  with assms show False by simp
qed

lemma math_pow2_in_range: "\<not> overflows (x ^ 2) \<Longrightarrow> math_pow2 x = Inr (x ^ 2)"
  by (simp add: math_pow2_def overflows_square)

text \<open>
  The values at the singular points, and the conversions at the edges of what they
  accept: at a field of view of 90 or 180 degrees the ball metrics still divide, a
  number led by the separator character 28 is no integer, a literal below the
  smallest double is zero, and \<open>inf\<close> is a float that is not a real.
\<close>

lemma math_cos_right_angle: "math_cos (radians 90) = 6123233995736766 / 10 ^ 32"
proof -
  have r: "radians 90 = pi / 2" by (simp add: radians_def)
  show ?thesis unfolding r by (simp add: math_cos_def)
qed

lemma math_tan_right_angle: "math_tan (radians 90) = 16331239353195370"
proof -
  have r: "radians 90 = pi / 2" by (simp add: radians_def)
  show ?thesis unfolding r by (simp add: math_tan_def tan_singular_def)
qed

lemma math_tan_straight_angle: "math_tan (radians 180) = - (12246467991473532 / 10 ^ 32)"
proof -
  have r: "radians 180 = pi" by (simp add: radians_def)
  show ?thesis unfolding r by (simp add: math_tan_def tan_singular_def)
qed

lemma ball_metrics_at_right_angle:
  "\<exists>d. ball_metrics (7 / 2) 320 240 5 640 480 90 = Inr d
         \<and> ball_distance d = 7 / 10 * (640 / (2 * 16331239353195370))"
  by (simp add: ball_metrics_def py_div_def bindE_def math_tan_right_angle)

lemma py_int_separator: "py_int (CHR 0x1C # ''12'') = Inl ValueError"
  by (simp add: py_int_def num_strip_def num_isspace_def parse_signed_def digit_val_def)

lemma py_float_edges:
  "py_float ''1e-400'' = Inr 0"
  "py_float ''1e400'' = Inl NotFinite"
  "py_float ''-Inf'' = Inl NotFinite"
  "py_float ''nan'' = Inl NotFinite"
  "py_float ''abc'' = Inl ValueError"
  by (simp_all add: py_float_def parse_decimal_def float_value_def overflows_def
        num_strip_def num_isspace_def parse_signed_def digit_val_def parse_mantissa_def
        is_exp_mark_def count_digits_def py_upper_def py_upper_char_def)

lemma as_int_get_ball: "as_int (get_ball k) s = (lookup_int (ball_values s) k, s)"
  by (simp add: as_int_def get_ball_def bindV_def liftV_def lookup_int_def split: option.splits)

lemma as_float_get_ball: "as_float (get_ball k) s = (lookup_float (ball_values s) k, s)"
  by (simp add: as_float_def get_ball_def bindV_def liftV_def lookup_float_def split: option.splits)

lemma as_int_get_tape: "as_int (get_tape k) s = (lookup_int (tape_values s) k, s)"
  by (simp add: as_int_def get_tape_def bindV_def liftV_def lookup_int_def split: option.splits)

lemma as_float_get_tape: "as_float (get_tape k) s = (lookup_float (tape_values s) k, s)"
  by (simp add: as_float_def get_tape_def bindV_def liftV_def lookup_float_def split: option.splits)

lemma read_hsv_ball: "read_hsv get_ball s = (hsv_bounds (ball_values s), s)"
  unfolding read_hsv_def hsv_bounds_def
  by (simp add: bindV_def as_int_get_ball returnV_def bindE_def split: sum.splits)

lemma read_hsv_tape: "read_hsv get_tape s = (hsv_bounds (tape_values s), s)"
  unfolding read_hsv_def hsv_bounds_def
  by (simp add: bindV_def as_int_get_tape returnV_def bindE_def split: sum.splits)

lemma ball_metrics_ok:
  assumes "knownRadius \<noteq> 0" "radius \<noteq> 0" "cameraWidth \<noteq> 0" "cameraHeight \<noteq> 0"
    and "tan (radians cameraFOV) \<noteq> 0"
  shows "ball_metrics knownRadius x y radius cameraWidth cameraHeight cameraFOV
           = Inr (ball_of knownRadius cameraWidth cameraHeight cameraFOV ((x, y), radius))"
  using assms
  by (simp add: ball_metrics_def py_div_def bindE_def ball_of_def Let_def math_tan_regular)

lemma ball_loop_result:
  assumes "lookup_int (ball_values s) ''MINRADIUS'' = Inr m" "0 \<le> m"
    and "lookup_float (ball_values s) ''RADIUS'' = Inr R" "R \<noteq> 0"
    and "W \<noteq> 0" "H \<noteq> 0" "tan (radians F) \<noteq> 0"
  shows "ball_loop be W H F cs acc s =
           (let kept = takeWhile (\<lambda>c. snd (minEnclosingCircle be c) > of_int m) cs
            in (Inr (fst acc + length kept,
                     snd acc @ map (\<lambda>c. ball_of R W H F (minEnclosingCircle be c)) kept), s))"
proof (induction cs arbitrary: acc)
  case Nil
  show ?case by simp
next
  case (Cons c cs)
  obtain x y r where circ: "minEnclosingCircle be c = ((x, y), r)"
    by (metis prod.collapse)
  show ?case
  proof (cases "r > of_int m")
    case True
    with assms(2) have "r \<noteq> 0" by auto
    with assms have bm: "ball_metrics R x y r W H F = Inr (ball_of R W H F ((x, y), r))"
      by (simp add: ball_metrics_ok)
    show ?thesis
      using True circ assms(1,3) bm Cons.IH
      by (simp add: bindV_def as_int_get_ball as_float_get_ball liftV_def Let_def)
  next
    case False
    then show ?thesis
      using circ assms(1)
      by (simp add: bindV_def as_int_get_ball returnV_def)
  qed
qed

lemma detect_game_balls_result:
  assumes "hsv_bounds (ball_values s) = Inr (lo, hi)"
    and "lookup_int (ball_values s) ''MINRADIUS'' = Inr m" "0 \<le> m"
    and "lookup_float (ball_values s) ''RADIUS'' = Inr R" "R \<noteq> 0"
    and "W \<noteq> 0" "H \<noteq> 0" "tan (radians F) \<noteq> 0"
  shows "detect_game_balls be img W H F s =
           (let kept = takeWhile (\<lambda>c. snd (minEnclosingCircle be c) > of_int m)
                         (sorted_reverse (contourArea be) (process_image_contours be img lo hi))
            in (Inr (length kept, map (\<lambda>c. ball_of R W H F (minEnclosingCircle be c)) kept), s))"
proof (cases "process_image_contours be img lo hi = []")
  case True
  then show ?thesis
    using assms(1)
    by (simp add: detect_game_balls_def bindV_def read_hsv_ball returnV_def sorted_reverse_def)
next
  case False
  then show ?thesis
    using assms(1)
    by (simp add: detect_game_balls_def bindV_def read_hsv_ball Let_def
          ball_loop_result [OF assms(2-8)])
qed

lemma tan_radians_45: "tan (radians 45) = 1"
proof -
  have r: "radians 45 = pi / 4" by (simp add: radians_def)
  show ?thesis by (simp only: r tan_45)
qed

lemma ball_state_hsv: "hsv_bounds (ball_values ball_state) = Inr ((20, 100, 100), (40, 255, 255))"
  by (simp add: hsv_bounds_def lookup_int_def ball_state_def empty_state_def bindE_def
        py_int_def num_strip_def num_isspace_def parse_signed_def digit_val_def)

lemma ball_state_minradius: "lookup_int (ball_values ball_state) ''MINRADIUS'' = Inr 4"
  by (simp add: lookup_int_def ball_state_def empty_state_def
        py_int_def num_strip_def num_isspace_def parse_signed_def digit_val_def)

lemma ball_state_radius: "lookup_float (ball_values ball_state) ''RADIUS'' = Inr (7 / 2)"
  by (simp add: lookup_float_def ball_state_def empty_state_def py_float_def parse_decimal_def float_value_def
        overflows_def num_strip_def num_isspace_def parse_signed_def digit_val_def
        parse_mantissa_def is_exp_mark_def count_digits_def py_upper_def py_upper_char_def)

section \<open>Loading the calibration\<close>

text \<open>
  C4. When the settings file does not exist, \<open>read_vision_file\<close> reports the failure
  (it returns \<open>False\<close>) and stores nothing: the three dictionaries are what they were
  before the call. The constructor, which calls it, changes only the recorded file name.
\<close>

theorem missing_file_stores_nothing:
  assumes "fs file = Inl FileNotFoundError"
  shows "read_vision_file fs file s = (Inr False, s)
           \<and> init fs file s = (Inr (), s\<lparr>visionFile := file\<rparr>)"
  using assms by (simp add: read_vision_file_def init_def)

theorem missing_file_stores_nothing_witness:
  "read_vision_file no_files ''vision.txt'' ball_state = (Inr False, ball_state)
     \<and> ball_values (snd (init no_files ''vision.txt'' ball_state)) = ball_values ball_state"
  using missing_file_stores_nothing [of no_files "''vision.txt''" ball_state]
  by (simp add: no_files_def)

lemma py_split_nonempty: "py_split sep s \<noteq> []"
  by (induction s) (auto split: list.splits)

lemma section_of_flag: "snd (section_of f0 sec) = snd (section_of f0 sec')"
  by (simp add: section_of_def)

lemma process_lines_ok:
  "list_all entry_ok lines \<Longrightarrow> \<exists>s'. process_lines lines sec s = (Inr (), s')"
proof (induction lines arbitrary: sec s)
  case Nil
  show ?case by simp
next
  case (Cons line rest)
  let ?sp = "py_split CHR '','' (py_strip line)"
  obtain f0 more where sp: "?sp = f0 # more"
    using py_split_nonempty [of "CHR '',''" "py_strip line"] by (cases ?sp) auto
  obtain sec' flag where so: "section_of f0 sec = (sec', flag)"
    by (cases "section_of f0 sec") auto
  from Cons.prems have rest: "list_all entry_ok rest" by simp
  show ?case
  proof (cases flag)
    case True
    then show ?thesis
      using sp so Cons.IH [OF rest, of sec' s] by (simp add: py_index_def)
  next
    case False
    then have "\<not> snd (section_of f0 [])"
      using so section_of_flag [of f0 sec "[]"] by simp
    with Cons.prems sp have "more \<noteq> []"
      by (auto simp: entry_ok_def Let_def)
    then obtain f1 more' where more: "more = f1 # more'" by (cases more) auto
    have "\<exists>s1. store_line ?sp f0 sec' s = (Inr (), s1)"
      using sp more
      by (simp add: store_line_def bindV_def liftV_def py_index_def returnV_def
            set_ball_def set_goal_def set_tape_def)
    then obtain s1 where st: "store_line ?sp f0 sec' s = (Inr (), s1)" ..
    show ?thesis
      using False sp so st Cons.IH [OF rest, of sec' s1] by (simp add: py_index_def)
  qed
qed

lemma hsv_bounds_fails:
  "k \<in> set hsv_keys \<Longrightarrow> lookup_int vals k = Inl e \<Longrightarrow> \<exists>e'. hsv_bounds vals = Inl e'"
  by (auto simp: hsv_bounds_def bindE_def hsv_keys_def split: sum.splits)

lemma detect_game_balls_bad_hsv:
  "hsv_bounds (ball_values s) = Inl e \<Longrightarrow> detect_game_balls be img W H F s = (Inl e, s)"
  by (simp add: detect_game_balls_def bindV_def read_hsv_ball)

lemma detect_tape_rectangle_bad_hsv:
  "hsv_bounds (tape_values s) = Inl e
     \<Longrightarrow> detect_tape_rectangle be img W H F L A M s = (Inl e, s)"
  by (simp add: detect_tape_rectangle_def bindV_def read_hsv_tape)

text \<open>
  C2 (amended). Loading checks no key and no value. For a file that exists and whose
  lines each open or close a section or contain a comma, \<open>read_vision_file\<close> returns
  \<open>True\<close> whichever keys the file gives and whatever their values are. An HSV bound
  that is then absent or not an integer makes the later call of \<open>detect_game_balls\<close>
  (for the ball section) or \<open>detect_tape_rectangle\<close> (for the tape section) raise.
\<close>

theorem load_accepts_what_detection_rejects:
  assumes "fs file = Inr lines" "list_all entry_ok lines" "k \<in> set hsv_keys"
    and "s' = snd (read_vision_file fs file s)"
  shows "fst (read_vision_file fs file s) = Inr True
           \<and> (lookup_int (ball_values s') k = Inl e
                \<longrightarrow> (\<exists>e'. detect_game_balls be img W H F s' = (Inl e', s')))
           \<and> (lookup_int (tape_values s') k = Inl e
                \<longrightarrow> (\<exists>e'. detect_tape_rectangle be img W H F L A M s' = (Inl e', s')))"
proof -
  obtain s1 where "process_lines lines [] s = (Inr (), s1)"
    using process_lines_ok [OF assms(2)] by blast
  with assms(1) have "fst (read_vision_file fs file s) = Inr True"
    by (simp add: read_vision_file_def)
  moreover have "\<exists>e'. detect_game_balls be img W H F s' = (Inl e', s')"
    if bad: "lookup_int (ball_values s') k = Inl e"
  proof -
    obtain e' where "hsv_bounds (ball_values s') = Inl e'"
      using hsv_bounds_fails [OF assms(3) bad] ..
    then show ?thesis by (simp add: detect_game_balls_bad_hsv)
  qed
  moreover have "\<exists>e'. detect_tape_rectangle be img W H F L A M s' = (Inl e', s')"
    if bad: "lookup_int (tape_values s') k = Inl e"
  proof -
    obtain e' where "hsv_bounds (tape_values s') = Inl e'"
      using hsv_bounds_fails [OF assms(3) bad] ..
    then show ?thesis by (simp add: detect_tape_rectangle_bad_hsv)
  qed
  ultimately show ?thesis by blast
qed

lemma partial_files_load:
  "read_vision_file partial_files ''vision.txt'' empty_state
     = (Inr True, empty_state\<lparr>ball_values := [''HMAX'' \<mapsto> ''40'', ''SMIN'' \<mapsto> ''abc'']\<rparr>)"
  by (simp add: read_vision_file_def partial_files_def empty_state_def py_strip_def
        py_isspace_def py_index_def section_of_def py_upper_def py_upper_char_def
        store_line_def bindV_def liftV_def set_ball_def)

theorem load_accepts_what_detection_rejects_witness:
  "fst (read_vision_file partial_files ''vision.txt'' empty_state) = Inr True
     \<and> (\<exists>e'. fst (detect_game_balls test_backend three_balls 640 480 45
                     (snd (read_vision_file partial_files ''vision.txt'' empty_state)))
               = Inl e')"
proof -
  have ok: "list_all entry_ok [''BALL:'' @ [CHR 0x0A], ''HMAX,40'' @ [CHR 0x0A],
                               ''smin,abc'' @ [CHR 0x0A]]"
    by (simp add: entry_ok_def py_strip_def py_isspace_def section_of_def py_upper_def
          py_upper_char_def)
  have f: "partial_files ''vision.txt''
             = Inr [''BALL:'' @ [CHR 0x0A], ''HMAX,40'' @ [CHR 0x0A], ''smin,abc'' @ [CHR 0x0A]]"
    by (simp add: partial_files_def)
  have k: "''HMIN'' \<in> set hsv_keys" by (simp add: hsv_keys_def)
  have miss: "lookup_int (ball_values (snd (read_vision_file partial_files ''vision.txt''
                 empty_state))) ''HMIN'' = Inl (KeyError ''HMIN'')"
    by (simp add: partial_files_load lookup_int_def)
  show ?thesis
    using load_accepts_what_detection_rejects
            [where s' = "snd (read_vision_file partial_files ''vision.txt'' empty_state)"
               and s = empty_state and e = "KeyError ''HMIN''" and be = test_backend
               and img = three_balls and W = 640 and H = 480 and F = 45
               and L = 0 and A = 0 and M = 0,
             OF f ok k refl] miss
    by (metis fst_conv)
qed

text \<open>
  The claim fails on a file whose ball section lacks \<open>HMIN\<close> and gives \<open>SMIN\<close> the
  value \<open>abc\<close>: the load succeeds and stores what it read.
\<close>

theorem load_incomplete_hsv_counterexample:
  "fst (read_vision_file partial_files ''vision.txt'' empty_state) = Inr True
     \<and> ball_values (snd (read_vision_file partial_files ''vision.txt'' empty_state)) ''HMIN''
         = None
     \<and> ball_values (snd (read_vision_file partial_files ''vision.txt'' empty_state)) ''SMIN''
         = Some ''abc''
     \<and> py_int ''abc'' = Inl ValueError"
  by (simp add: partial_files_load)
     (simp add: py_int_def num_strip_def num_isspace_def parse_signed_def digit_val_def)

section \<open>Ball detection\<close>

lemma sorted_neg_rev:
  fixes f :: "'c \<Rightarrow> real"
  shows "sorted (map (\<lambda>c. - f c) xs) \<Longrightarrow> sorted (rev (map f xs))"
  by (induction xs) (auto simp: sorted_append)

lemma sorted_reverse_descending:
  "sorted (rev (map f (sorted_reverse f cs))) \<and> mset (sorted_reverse f cs) = mset cs"
proof -
  have "sorted (map (\<lambda>c. - f c) (sorted_reverse f cs))"
    by (simp add: sorted_reverse_def)
  then have "sorted (rev (map f (sorted_reverse f cs)))"
    by (rule sorted_neg_rev)
  then show ?thesis by (simp add: sorted_reverse_def)
qed

text \<open>
  C1 (amended). With a calibration that parses, a minimum radius that is not negative
  and camera parameters for which no division fails, \<open>detect_game_balls\<close> walks the
  contours in descending order of area and stops at the first contour whose fitted
  radius is not strictly greater than \<open>MINRADIUS\<close> (equal counts as too small): the
  detections are exactly those of the contours before it, in that order, and nothing
  behind it is looked at.
\<close>

theorem ball_scan_stops_at_first_small_radius:
  assumes "hsv_bounds (ball_values s) = Inr (lo, hi)"
    and "lookup_int (ball_values s) ''MINRADIUS'' = Inr m" "0 \<le> m"
    and "lookup_float (ball_values s) ''RADIUS'' = Inr R" "R \<noteq> 0"
    and "W \<noteq> 0" "H \<noteq> 0" "tan (radians F) \<noteq> 0"
    and "sortedContours = sorted_reverse (contourArea be) (process_image_contours be img lo hi)"
  shows "\<exists>ds. detect_game_balls be img W H F s = (Inr (length ds, ds), s)
           \<and> map (\<lambda>d. ((ball_x d, ball_y d), ball_radius d)) ds =
               map (minEnclosingCircle be)
                 (takeWhile (\<lambda>c. snd (minEnclosingCircle be c) > of_int m) sortedContours)
           \<and> sorted (rev (map (contourArea be) sortedContours))
           \<and> mset sortedContours = mset (process_image_contours be img lo hi)"
proof -
  let ?kept = "takeWhile (\<lambda>c. snd (minEnclosingCircle be c) > of_int m) sortedContours"
  let ?ds = "map (\<lambda>c. ball_of R W H F (minEnclosingCircle be c)) ?kept"
  have run: "detect_game_balls be img W H F s = (Inr (length ?ds, ?ds), s)"
    using detect_game_balls_result [OF assms(1-8), of be img] assms(9)
    by (simp add: Let_def)
  have proj: "((ball_x (ball_of R W H F c), ball_y (ball_of R W H F c)),
               ball_radius (ball_of R W H F c)) = c" for c
    by (cases c) (auto simp: ball_of_def)
  have "map (\<lambda>d. ((ball_x d, ball_y d), ball_radius d)) ?ds = map (minEnclosingCircle be) ?kept"
    by (simp add: proj o_def)
  with run sorted_reverse_descending [of "contourArea be"] assms(9)
  show ?thesis by blast
qed

lemma test_backend_contours: "process_image_contours test_backend img lo hi = img"
  by (simp add: process_image_contours_def test_backend_def)

lemma three_balls_sorted:
  "sorted_reverse (contourArea test_backend) three_balls
     = [blob 100 320 240 5, blob 80 100 50 2, blob 60 500 400 9]"
  by (simp add: sorted_reverse_def three_balls_def test_backend_def blob_def)

lemma edge_balls_sorted:
  "sorted_reverse (contourArea test_backend) edge_balls
     = [blob 100 320 240 5, blob 80 100 50 4, blob 60 500 400 9]"
  by (simp add: sorted_reverse_def edge_balls_def test_backend_def blob_def)

theorem ball_scan_stops_at_first_small_radius_witness:
  "\<exists>ds. detect_game_balls test_backend three_balls 640 480 45 ball_state
           = (Inr (length ds, ds), ball_state)
     \<and> map (\<lambda>d. ((ball_x d, ball_y d), ball_radius d)) ds = [((320, 240), 5)]"
proof -
  have t: "tan (radians 45) \<noteq> 0" by (simp add: tan_radians_45)
  have "\<exists>ds. detect_game_balls test_backend three_balls 640 480 45 ball_state
                = (Inr (length ds, ds), ball_state)
          \<and> map (\<lambda>d. ((ball_x d, ball_y d), ball_radius d)) ds =
              map (minEnclosingCircle test_backend)
                (takeWhile (\<lambda>c. snd (minEnclosingCircle test_backend c) > of_int 4)
                   (sorted_reverse (contourArea test_backend) three_balls))"
    using ball_scan_stops_at_first_small_radius
            [OF ball_state_hsv ball_state_minradius _ ball_state_radius _ _ _ t,
             of 640 480 _ test_backend three_balls]
    by (simp add: test_backend_contours) blast
  then show ?thesis
    by (simp add: three_balls_sorted) (simp add: test_backend_def blob_def)
qed

text \<open>
  The claim as written stops at a radius below the minimum. With radii 5, 4 and 9 and
  \<open>MINRADIUS = 4\<close> no radius is below the minimum, so it promises three detections;
  the method returns one, because the second contour's radius is not greater than 4.
\<close>

theorem ball_scan_equal_radius_counterexample:
  "map_sum id fst (fst (detect_game_balls test_backend edge_balls 640 480 45 ball_state))
       = Inr 1
     \<and> length (takeWhile (\<lambda>c. \<not> snd (minEnclosingCircle test_backend c) < 4)
                 (sorted_reverse (contourArea test_backend) edge_balls)) = 3"
proof -
  have t: "tan (radians 45) \<noteq> 0" by (simp add: tan_radians_45)
  have "detect_game_balls test_backend edge_balls 640 480 45 ball_state =
          (let kept = takeWhile (\<lambda>c. snd (minEnclosingCircle test_backend c) > of_int 4)
                        (sorted_reverse (contourArea test_backend) edge_balls)
           in (Inr (length kept,
                    map (\<lambda>c. ball_of (7 / 2) 640 480 45 (minEnclosingCircle test_backend c)) kept),
               ball_state))"
    using detect_game_balls_result
            [OF ball_state_hsv ball_state_minradius _ ball_state_radius _ _ _ t,
             of 640 480 test_backend edge_balls]
    by (simp add: test_backend_contours)
  then show ?thesis
    by (simp add: edge_balls_sorted) (simp add: test_backend_def blob_def)
qed

text \<open>
  C6. One contour is found, its fitted circle is centred on the image's vertical axis
  (\<open>x = cameraWidth / 2\<close>) and its radius equals the calibrated \<open>RADIUS\<close>, which
  passes the minimum. Then, for a camera with non-zero width and height and a field of
  view whose tangent is not zero, one detection is returned, at distance
  \<open>cameraWidth / (2 * tan (radians cameraFOV))\<close>, with angle 0 and offset 0.
\<close>

theorem centred_ball_of_known_radius:
  assumes "hsv_bounds (ball_values s) = Inr (lo, hi)"
    and "lookup_int (ball_values s) ''MINRADIUS'' = Inr m"
    and "lookup_float (ball_values s) ''RADIUS'' = Inr R"
    and "process_image_contours be img lo hi = [c]"
    and "minEnclosingCircle be c = ((W / 2, y), R)"
    and "R > of_int m" "R \<noteq> 0"
    and "W \<noteq> 0" "H \<noteq> 0" "tan (radians F) \<noteq> 0"
  shows "\<exists>d. detect_game_balls be img W H F s = (Inr (1, [d]), s)
           \<and> ball_distance d = W / (2 * tan (radians F))
           \<and> ball_angle d = 0 \<and> ball_offset d = 0"
proof -
  have bm: "ball_metrics R (W / 2) y R W H F = Inr (ball_of R W H F ((W / 2, y), R))"
    using assms by (simp add: ball_metrics_ok)
  have "detect_game_balls be img W H F s = (Inr (1, [ball_of R W H F ((W / 2, y), R)]), s)"
    using assms(1-6) bm
    by (simp add: detect_game_balls_def bindV_def read_hsv_ball sorted_reverse_def
          as_int_get_ball as_float_get_ball liftV_def)
  moreover have "ball_distance (ball_of R W H F ((W / 2, y), R)) = W / (2 * tan (radians F))"
    using assms(7) by (simp add: ball_of_def)
  moreover have "ball_angle (ball_of R W H F ((W / 2, y), R)) = 0"
    by (simp add: ball_of_def degrees_def)
  moreover have "ball_offset (ball_of R W H F ((W / 2, y), R)) = 0"
    by (simp add: ball_of_def)
  ultimately show ?thesis by blast
qed

theorem centred_ball_of_known_radius_witness:
  "\<exists>d. detect_game_balls test_backend [blob 100 320 240 (7 / 2)] 640 480 45
           (ball_state\<lparr>ball_values := (ball_values ball_state)(''MINRADIUS'' \<mapsto> ''3'')\<rparr>)
         = (Inr (1, [d]),
            ball_state\<lparr>ball_values := (ball_values ball_state)(''MINRADIUS'' \<mapsto> ''3'')\<rparr>)
       \<and> ball_distance d = 320 \<and> ball_angle d = 0 \<and> ball_offset d = 0"
proof -
  let ?s = "ball_state\<lparr>ball_values := (ball_values ball_state)(''MINRADIUS'' \<mapsto> ''3'')\<rparr>"
  have t: "tan (radians 45) \<noteq> 0" by (simp add: tan_radians_45)
  have h: "hsv_bounds (ball_values ?s) = Inr ((20, 100, 100), (40, 255, 255))"
    using ball_state_hsv by (simp add: hsv_bounds_def lookup_int_def)
  have m: "lookup_int (ball_values ?s) ''MINRADIUS'' = Inr 3"
    by (simp add: lookup_int_def py_int_def num_strip_def num_isspace_def parse_signed_def
          digit_val_def)
  have r: "lookup_float (ball_values ?s) ''RADIUS'' = Inr (7 / 2)"
    using ball_state_radius by (simp add: lookup_float_def)
  have c: "minEnclosingCircle test_backend (blob 100 320 240 (7 / 2)) = ((640 / 2, 240), 7 / 2)"
    by (simp add: test_backend_def blob_def)
  show ?thesis
    using centred_ball_of_known_radius
            [OF h m r test_backend_contours c _ _ _ _ t, of 480]
    by (simp add: tan_radians_45)
qed

section \<open>Tape detection\<close>

lemma foldl_max_key:
  "foldl (\<lambda>best d. if f d > f best then d else best) c rest \<in> set (c # rest)
     \<and> (\<forall>d \<in> set (c # rest).
           (f d :: real) \<le> f (foldl (\<lambda>best d. if f d > f best then d else best) c rest))"
proof (induction rest arbitrary: c)
  case Nil
  show ?case by simp
next
  case (Cons a rest)
  show ?case
    using Cons.IH [of a] Cons.IH [of c] by (auto simp: less_le_trans intro: order_trans)
qed

lemma py_max_key_largest:
  assumes "py_max_key f cs = Inr c"
  shows "c \<in> set cs \<and> (\<forall>d \<in> set cs. f d \<le> f c)"
proof (cases cs)
  case Nil
  with assms show ?thesis by (simp add: py_max_key_def)
next
  case (Cons a rest)
  with assms foldl_max_key [of f a rest] show ?thesis
    by (simp add: py_max_key_def)
qed

lemma py_max_key_nonempty: "py_max_key f cs = Inr c \<Longrightarrow> cs \<noteq> []"
  by (auto simp: py_max_key_def)

lemma detect_tape_no_contours:
  assumes "hsv_bounds (tape_values s) = Inr (lo, hi)"
    and "process_image_contours be img lo hi = []"
  shows "detect_tape_rectangle be img W H F L A M s = (Inr tape_defaults, s)"
  using assms
  by (simp add: detect_tape_rectangle_def bindV_def read_hsv_tape returnV_def)

lemma detect_tape_too_small:
  assumes "hsv_bounds (tape_values s) = Inr (lo, hi)"
    and "py_max_key (contourArea be) (process_image_contours be img lo hi) = Inr c"
    and "lookup_int (tape_values s) ''MINAREA'' = Inr m"
    and "\<not> contourArea be c > of_int m"
  shows "detect_tape_rectangle be img W H F L A M s = (Inr tape_defaults, s)"
  using assms py_max_key_nonempty [OF assms(2)]
  by (simp add: detect_tape_rectangle_def bindV_def read_hsv_tape returnV_def liftV_def
        as_int_get_tape)

lemma foldl_keeps_maximum:
  fixes f :: "'c \<Rightarrow> real"
  assumes "\<forall>d \<in> set xs. f d \<le> f b"
  shows "foldl (\<lambda>best d. if f d > f best then d else best) b xs = b"
  using assms by (induction xs) auto

lemma foldl_reaches_first_maximum:
  fixes f :: "'c \<Rightarrow> real"
  assumes "\<forall>d \<in> set xs. f d < f c" "f b < f c"
  shows "foldl (\<lambda>best d. if f d > f best then d else best) b (xs @ [c]) = c"
  using assms by (induction xs arbitrary: b) auto

lemma py_max_key_first:
  fixes f :: "'c \<Rightarrow> real"
  assumes "\<forall>d \<in> set before. f d < f c" "\<forall>d \<in> set after. f d \<le> f c"
  shows "py_max_key f (before @ c # after) = Inr c"
proof (cases before)
  case Nil
  with assms(2) show ?thesis
    by (simp add: py_max_key_def foldl_keeps_maximum)
next
  case (Cons a rest)
  let ?step = "\<lambda>best d. if f d > f best then d else best"
  from Cons assms(1) have "\<forall>d \<in> set rest. f d < f c" and "f a < f c"
    by simp_all
  then have first: "foldl ?step a (rest @ [c]) = c"
    by (rule foldl_reaches_first_maximum)
  have "rest @ c # after = (rest @ [c]) @ after" by simp
  then have "foldl ?step a (rest @ c # after) = foldl ?step (foldl ?step a (rest @ [c])) after"
    by (simp only: foldl_append)
  also have "\<dots> = foldl ?step c after" by (simp only: first)
  also have "\<dots> = c" using assms(2) by (rule foldl_keeps_maximum)
  finally show ?thesis using Cons by (simp add: py_max_key_def)
qed

lemma tape_real_world_ok:
  assumes "lookup_float (tape_values s) ''TAPEWIDTH'' = Inr wd"
    and "lookup_float (tape_values s) ''GOALHEIGHT'' = Inr gh"
    and "lookup_float (tape_values s) ''LOCKTOLERANCE'' = Inr tol"
    and "tw \<noteq> 0"
    and "\<not> overflows
           ((wd * math_cos (radians (2 * camera_angle (snd (snd rect)))) * L / of_int tw)\<^sup>2)"
    and "\<not> overflows ((gh - M)\<^sup>2)"
  shows "\<exists>cam rw. tape_real_world (tx, ty, tw, th) ar rect box W H L M s
             = (Inr (cam, rw, True, \<bar>IPP cam * Offset cam\<bar> \<le> tol, Some rect, Some box), s)
           \<and> cam = \<lparr>TargetX = tx, TargetY = ty, TargetW = tw, TargetH = th,
                    IPP = wd * math_cos (radians (2 * camera_angle (snd (snd rect))))
                            / of_int tw,
                    Offset = (of_int tx + of_int tw / 2) - W / 2\<rparr>
           \<and> CenterOffset rw = - (IPP cam * Offset cam)
           \<and> StraightDistance rw
               = wd * math_cos (radians (2 * camera_angle (snd (snd rect)))) * L / of_int tw
           \<and> TapeDistance rw
               = (if 0 < (StraightDistance rw)\<^sup>2 - (gh - M)\<^sup>2
                  then sqrt ((StraightDistance rw)\<^sup>2 - (gh - M)\<^sup>2) else 1000)"
  using assms(1-4) math_pow2_in_range [OF assms(5)] math_pow2_in_range [OF assms(6)]
  by (simp add: tape_real_world_def bindV_def liftV_def returnV_def as_float_get_tape
        py_div_def Let_def math_cos_nonzero)

lemma tape_real_world_overflow:
  assumes "lookup_float (tape_values s) ''TAPEWIDTH'' = Inr wd"
    and "lookup_float (tape_values s) ''GOALHEIGHT'' = Inr gh"
    and "tw \<noteq> 0"
    and "\<not> overflows
           ((wd * math_cos (radians (2 * camera_angle (snd (snd rect)))) * L / of_int tw)\<^sup>2)"
    and "\<not> overflows (gh - M)"
    and "overflows ((gh - M)\<^sup>2)"
  shows "tape_real_world (tx, ty, tw, th) ar rect box W H L M s = (Inl OverflowError, s)"
  using assms(1-3,5,6) math_pow2_in_range [OF assms(4)]
  by (simp add: tape_real_world_def bindV_def liftV_def as_float_get_tape py_div_def Let_def
        math_pow2_def)

lemma bindV_returns:
  assumes "bindV m f s = (Inr r, s')"
  shows "\<exists>v s1. m s = (Inr v, s1) \<and> f v s1 = (Inr r, s')"
  using assms by (auto simp: bindV_def split: prod.splits sum.splits)

lemma tape_real_world_returns:
  assumes "tape_real_world bounds ar rect box W H L M s
             = (Inr (cam, rw, found, lock, rect', box'), s')"
  shows "found \<and> (TargetX cam, TargetY cam, TargetW cam, TargetH cam) = bounds
           \<and> rect' = Some rect \<and> box' = Some box"
proof -
  obtain tx ty tw th where b: "bounds = (tx, ty, tw, th)"
    by (metis prod.collapse)
  from assms show ?thesis
    unfolding tape_real_world_def b
    by (auto simp: Let_def returnV_def dest!: bindV_returns)
qed

lemma detect_tape_found:
  assumes "hsv_bounds (tape_values s) = Inr (lo, hi)"
    and "py_max_key (contourArea be) (process_image_contours be img lo hi) = Inr c"
    and "lookup_int (tape_values s) ''MINAREA'' = Inr m"
    and "contourArea be c > of_int m"
    and "boundingRect be c = (tx, ty, tw, th)" "tw \<noteq> 0" "th \<noteq> 0"
  shows "detect_tape_rectangle be img W H F L A M s
           = tape_real_world (tx, ty, tw, th) (of_int tw / of_int th) (minAreaRect be c)
               (int0 (boxPoints be (minAreaRect be c))) W H L M s"
  using assms py_max_key_nonempty [OF assms(2)]
  by (simp add: detect_tape_rectangle_def bindV_def read_hsv_tape liftV_def
        as_int_get_tape py_div_def Let_def)

lemma detect_tape_found_returns:
  assumes "hsv_bounds (tape_values s) = Inr (lo, hi)"
    and "py_max_key (contourArea be) (process_image_contours be img lo hi) = Inr c"
    and "lookup_int (tape_values s) ''MINAREA'' = Inr m"
    and "contourArea be c > of_int m"
    and "detect_tape_rectangle be img W H F L A M s
           = (Inr (cam, rw, found, lock, rect, box), s')"
  shows "found \<and> (TargetX cam, TargetY cam, TargetW cam, TargetH cam) = boundingRect be c
           \<and> rect = Some (minAreaRect be c)"
proof -
  obtain tx ty tw th where b: "boundingRect be c = (tx, ty, tw, th)"
    by (metis prod.collapse)
  have "detect_tape_rectangle be img W H F L A M s
          = bindV (liftV (py_div (of_int tw) (of_int th))) (\<lambda>aspectRatio.
              tape_real_world (tx, ty, tw, th) aspectRatio (minAreaRect be c)
                (int0 (boxPoints be (minAreaRect be c))) W H L M) s"
    using assms(1-4) py_max_key_nonempty [OF assms(2)] b
    by (simp add: detect_tape_rectangle_def bindV_def read_hsv_tape liftV_def
          as_int_get_tape Let_def)
  with assms(5) obtain ar s1 where
    "tape_real_world (tx, ty, tw, th) ar (minAreaRect be c)
       (int0 (boxPoints be (minAreaRect be c))) W H L M s1
     = (Inr (cam, rw, found, lock, rect, box), s')"
    by (auto dest!: bindV_returns)
  from tape_real_world_returns [OF this] b show ?thesis by simp
qed

lemma tape_state_hsv:
  "hsv_bounds (tape_values tape_state) = Inr ((50, 100, 100), (90, 255, 255))"
  by (simp add: hsv_bounds_def lookup_int_def tape_state_def empty_state_def bindE_def
        py_int_def num_strip_def num_isspace_def parse_signed_def digit_val_def)

lemma tape_state_minarea: "lookup_int (tape_values tape_state) ''MINAREA'' = Inr 30"
  by (simp add: lookup_int_def tape_state_def empty_state_def
        py_int_def num_strip_def num_isspace_def parse_signed_def digit_val_def)

lemma tape_state_floats:
  "lookup_float (tape_values tape_state) ''TAPEWIDTH'' = Inr 4"
  "lookup_float (tape_values tape_state) ''GOALHEIGHT'' = Inr 90"
  "lookup_float (tape_values tape_state) ''LOCKTOLERANCE'' = Inr 2"
  by (simp_all add: lookup_float_def tape_state_def empty_state_def py_float_def
        parse_decimal_def float_value_def overflows_def num_strip_def num_isspace_def
        parse_signed_def digit_val_def parse_mantissa_def is_exp_mark_def count_digits_def
        py_upper_def py_upper_char_def)

lemma tall_goal_state_keys:
  "hsv_bounds (tape_values tall_goal_state) = Inr ((50, 100, 100), (90, 255, 255))"
  "lookup_int (tape_values tall_goal_state) ''MINAREA'' = Inr 30"
  "lookup_float (tape_values tall_goal_state) ''TAPEWIDTH'' = Inr 4"
  "lookup_float (tape_values tall_goal_state) ''LOCKTOLERANCE'' = Inr 2"
  using tape_state_hsv tape_state_minarea tape_state_floats
  by (simp_all add: tall_goal_state_def hsv_bounds_def lookup_int_def lookup_float_def)

lemma tall_goal_state_height:
  "lookup_float (tape_values tall_goal_state) ''GOALHEIGHT'' = Inr (10 ^ 200)"
  by (simp add: lookup_float_def tall_goal_state_def py_float_def
        parse_decimal_def float_value_def overflows_def num_strip_def num_isspace_def
        parse_signed_def digit_val_def parse_mantissa_def is_exp_mark_def count_digits_def
        py_upper_def py_upper_char_def)

lemma strip_is_largest:
  "py_max_key (contourArea test_backend) (process_image_contours test_backend [strip a] lo hi)
     = Inr (strip a)"
  by (simp add: test_backend_contours py_max_key_def)

lemma tilted_is_largest:
  "py_max_key (contourArea test_backend) (process_image_contours test_backend [tilted a] lo hi)
     = Inr (tilted a)"
  by (simp add: test_backend_contours py_max_key_def)

lemma strip_measures:
  "boundingRect test_backend (strip a) = (320, 200, 4, 2)"
  "minAreaRect test_backend (strip a) = ((322, 201), (4, 2), - 90)"
  "contourArea test_backend (strip a) = a"
  by (simp_all add: test_backend_def strip_def)

lemma tilted_measures:
  "boundingRect test_backend (tilted a) = (320, 200, 4, 2)"
  "minAreaRect test_backend (tilted a) = ((322, 201), (4, 2), - 45)"
  "contourArea test_backend (tilted a) = a"
  by (simp_all add: test_backend_def strip_def tilted_def)

lemma strip_faces_camera:
  "math_cos (radians (2 * camera_angle (snd (snd (minAreaRect test_backend (strip a)))))) = 1"
  by (simp add: strip_measures camera_angle_def math_cos_zero_angle)

lemma tilted_is_edge_on:
  "math_cos (radians (2 * camera_angle (snd (snd (minAreaRect test_backend (tilted a))))))
     = 6123233995736766 / 10 ^ 32"
proof -
  have r: "radians 90 = pi / 2" by (simp add: radians_def)
  have "math_cos (radians 90) = 6123233995736766 / 10 ^ 32"
    unfolding r by (simp add: math_cos_def)
  then show ?thesis by (simp add: tilted_measures camera_angle_def)
qed

text \<open>
  C3 (amended). A contour qualifies, the calibration parses, the bounding rectangle
  has non-zero width and height, and neither of the two squares that
  \<open>math.pow\<close> computes leaves the range of the floats. Then
  \<open>detect_tape_rectangle\<close> returns without raising, whatever the rotated angle;
  \<open>TapeDistance\<close> is the sentinel 1000 when
  \<open>StraightDistance\<^sup>2 - (GOALHEIGHT - cameraMountHeight)\<^sup>2\<close> is not positive, and it
  is the square root of that argument exactly when the argument is positive.
\<close>

theorem tape_distance_sentinel_or_root:
  assumes "hsv_bounds (tape_values s) = Inr (lo, hi)"
    and "py_max_key (contourArea be) (process_image_contours be img lo hi) = Inr c"
    and "lookup_int (tape_values s) ''MINAREA'' = Inr m"
    and "contourArea be c > of_int m"
    and "boundingRect be c = (tx, ty, tw, th)" "tw \<noteq> 0" "th \<noteq> 0"
    and "lookup_float (tape_values s) ''TAPEWIDTH'' = Inr wd"
    and "lookup_float (tape_values s) ''GOALHEIGHT'' = Inr gh"
    and "lookup_float (tape_values s) ''LOCKTOLERANCE'' = Inr tol"
    and "\<not> overflows
           ((wd * math_cos (radians (2 * camera_angle (snd (snd (minAreaRect be c))))) * L
               / of_int tw)\<^sup>2)"
    and "\<not> overflows ((gh - M)\<^sup>2)"
  shows "\<exists>cam rw lock rect box.
           detect_tape_rectangle be img W H F L A M s
             = (Inr (cam, rw, True, lock, rect, box), s)
           \<and> StraightDistance rw
               = wd * math_cos (radians (2 * camera_angle (snd (snd (minAreaRect be c))))) * L
                   / of_int tw
           \<and> ((StraightDistance rw)\<^sup>2 - (gh - M)\<^sup>2 \<le> 0 \<longrightarrow> TapeDistance rw = 1000)
           \<and> (TapeDistance rw = sqrt ((StraightDistance rw)\<^sup>2 - (gh - M)\<^sup>2)
                \<longleftrightarrow> 0 < (StraightDistance rw)\<^sup>2 - (gh - M)\<^sup>2)"
proof -
  let ?rect = "minAreaRect be c"
  obtain cam rw where
    run: "tape_real_world (tx, ty, tw, th) (of_int tw / of_int th) ?rect
            (int0 (boxPoints be ?rect)) W H L M s
          = (Inr (cam, rw, True, \<bar>IPP cam * Offset cam\<bar> \<le> tol, Some ?rect,
                  Some (int0 (boxPoints be ?rect))), s)"
    and sd: "StraightDistance rw
               = wd * math_cos (radians (2 * camera_angle (snd (snd ?rect)))) * L / of_int tw"
    and td: "TapeDistance rw
               = (if 0 < (StraightDistance rw)\<^sup>2 - (gh - M)\<^sup>2
                  then sqrt ((StraightDistance rw)\<^sup>2 - (gh - M)\<^sup>2) else 1000)"
    using tape_real_world_ok [OF assms(8-10) assms(6) assms(11) assms(12)] by blast
  let ?arg = "(StraightDistance rw)\<^sup>2 - (gh - M)\<^sup>2"
  have iff: "TapeDistance rw = sqrt ?arg \<longleftrightarrow> 0 < ?arg"
  proof (cases "0 < ?arg")
    case True
    with td show ?thesis by simp
  next
    case False
    then have "sqrt ?arg \<le> 0" by simp
    moreover from False td have "TapeDistance rw = 1000" by simp
    ultimately show ?thesis using False by linarith
  qed
  have low: "?arg \<le> 0 \<longrightarrow> TapeDistance rw = 1000"
    using td by simp
  have "detect_tape_rectangle be img W H F L A M s
          = (Inr (cam, rw, True, \<bar>IPP cam * Offset cam\<bar> \<le> tol, Some ?rect,
                  Some (int0 (boxPoints be ?rect))), s)"
    using detect_tape_found [OF assms(1-7)] run by simp
  with sd iff low show ?thesis by blast
qed

theorem tape_distance_sentinel_or_root_witness:
  "(\<exists>cam rw lock rect box.
      detect_tape_rectangle test_backend [strip 100] 640 480 60 50 0 10 tape_state
        = (Inr (cam, rw, True, lock, rect, box), tape_state)
      \<and> StraightDistance rw = 50 \<and> TapeDistance rw = 1000)
   \<and> (\<exists>cam rw lock rect box.
      detect_tape_rectangle test_backend [tilted 100] 640 480 60 50 0 10 tape_state
        = (Inr (cam, rw, True, lock, rect, box), tape_state)
      \<and> TapeDistance rw = 1000)"
proof -
  have big: "contourArea test_backend (strip 100) > of_int 30"
    by (simp add: strip_measures)
  have r1: "\<not> overflows ((4 * math_cos (radians (2 * camera_angle (snd (snd
               (minAreaRect test_backend (strip 100)))))) * 50 / of_int 4)\<^sup>2)"
    by (simp add: strip_faces_camera overflows_def)
  have r2: "\<not> overflows ((90 - 10 :: real)\<^sup>2)"
    by (simp add: overflows_def)
  obtain cam rw lock rect box where
    run: "detect_tape_rectangle test_backend [strip 100] 640 480 60 50 0 10 tape_state
            = (Inr (cam, rw, True, lock, rect, box), tape_state)"
    and sd: "StraightDistance rw
               = 4 * math_cos (radians (2 * camera_angle (snd (snd (minAreaRect test_backend
                   (strip 100)))))) * 50 / of_int 4"
    and low: "(StraightDistance rw)\<^sup>2 - (90 - 10)\<^sup>2 \<le> 0 \<longrightarrow> TapeDistance rw = 1000"
    using tape_distance_sentinel_or_root
            [OF tape_state_hsv strip_is_largest tape_state_minarea big strip_measures(1) _ _
                tape_state_floats r1 r2, of 640 480 60 0]
    by auto
  from sd have "StraightDistance rw = 50"
    by (simp add: strip_faces_camera)
  with run low have first:
    "\<exists>cam rw lock rect box.
       detect_tape_rectangle test_backend [strip 100] 640 480 60 50 0 10 tape_state
         = (Inr (cam, rw, True, lock, rect, box), tape_state)
       \<and> StraightDistance rw = 50 \<and> TapeDistance rw = 1000"
    by auto
  have big': "contourArea test_backend (tilted 100) > of_int 30"
    by (simp add: tilted_measures)
  have r1': "\<not> overflows ((4 * math_cos (radians (2 * camera_angle (snd (snd
               (minAreaRect test_backend (tilted 100)))))) * 50 / of_int 4)\<^sup>2)"
    by (simp add: tilted_is_edge_on overflows_def power2_eq_square)
  obtain cam' rw' lock' rect' box' where
    run': "detect_tape_rectangle test_backend [tilted 100] 640 480 60 50 0 10 tape_state
            = (Inr (cam', rw', True, lock', rect', box'), tape_state)"
    and sd': "StraightDistance rw'
               = 4 * math_cos (radians (2 * camera_angle (snd (snd (minAreaRect test_backend
                   (tilted 100)))))) * 50 / of_int 4"
    and low': "(StraightDistance rw')\<^sup>2 - (90 - 10)\<^sup>2 \<le> 0 \<longrightarrow> TapeDistance rw' = 1000"
    using tape_distance_sentinel_or_root
            [OF tape_state_hsv tilted_is_largest tape_state_minarea big' tilted_measures(1) _ _
                tape_state_floats r1' r2, of 640 480 60 0]
    by auto
  from sd' have "StraightDistance rw' = 50 * (6123233995736766 / 10 ^ 32)"
    by (simp add: tilted_is_edge_on)
  with low' have "TapeDistance rw' = 1000" by (simp add: power2_eq_square)
  with run' first show ?thesis by blast
qed

text \<open>
  The claim as written promises a return for every qualifying contour. With a goal
  height of \<open>1e200\<close> inches in the calibration the argument of the square root is
  far below zero, and \<open>math.pow\<close> raises \<open>OverflowError\<close> on the square of the
  height difference before any distance is set.
\<close>

theorem tape_distance_overflow_counterexample:
  "detect_tape_rectangle test_backend [strip 100] 640 480 60 50 0 10 tall_goal_state
     = (Inl OverflowError, tall_goal_state)
   \<and> contourArea test_backend (strip 100) > 30
   \<and> lookup_float (tape_values tall_goal_state) ''GOALHEIGHT'' = Inr (10 ^ 200)
   \<and> (50 :: real)\<^sup>2 - (10 ^ 200 - 10)\<^sup>2 \<le> 0"
proof -
  have big: "contourArea test_backend (strip 100) > of_int 30"
    by (simp add: strip_measures)
  have "detect_tape_rectangle test_backend [strip 100] 640 480 60 50 0 10 tall_goal_state
          = tape_real_world (320, 200, 4, 2) (of_int 4 / of_int 2)
              (minAreaRect test_backend (strip 100))
              (int0 (boxPoints test_backend (minAreaRect test_backend (strip 100))))
              640 480 50 10 tall_goal_state"
    using detect_tape_found
            [OF tall_goal_state_keys(1) strip_is_largest tall_goal_state_keys(2) big
                strip_measures(1)]
    by simp
  also have "\<dots> = (Inl OverflowError, tall_goal_state)"
  proof (rule tape_real_world_overflow
                [OF tall_goal_state_keys(3) tall_goal_state_height])
    show "(4::int) \<noteq> 0" by simp
    show "\<not> overflows ((4 * math_cos (radians (2 * camera_angle (snd (snd
               (minAreaRect test_backend (strip 100)))))) * 50 / of_int 4)\<^sup>2)"
      by (simp add: strip_faces_camera overflows_def)
    show "\<not> overflows (10 ^ 200 - 10)" by (simp add: overflows_def)
    show "overflows ((10 ^ 200 - 10)\<^sup>2)" by (simp add: overflows_def)
  qed
  finally show ?thesis
    using big by (simp add: tall_goal_state_height)
qed

text \<open>
  C5. When a target is found (under the conditions of C3 for a run without an
  exception), the returned lock flag is true exactly when the absolute horizontal
  offset in inches, which is \<open>IPP * Offset\<close> and the negation of \<open>CenterOffset\<close>, is
  at most \<open>LOCKTOLERANCE\<close>; an offset equal to the tolerance locks.
\<close>

theorem target_lock_iff_within_tolerance:
  assumes "hsv_bounds (tape_values s) = Inr (lo, hi)"
    and "py_max_key (contourArea be) (process_image_contours be img lo hi) = Inr c"
    and "lookup_int (tape_values s) ''MINAREA'' = Inr m"
    and "contourArea be c > of_int m"
    and "boundingRect be c = (tx, ty, tw, th)" "tw \<noteq> 0" "th \<noteq> 0"
    and "lookup_float (tape_values s) ''TAPEWIDTH'' = Inr wd"
    and "lookup_float (tape_values s) ''GOALHEIGHT'' = Inr gh"
    and "lookup_float (tape_values s) ''LOCKTOLERANCE'' = Inr tol"
    and "\<not> overflows
           ((wd * math_cos (radians (2 * camera_angle (snd (snd (minAreaRect be c))))) * L
               / of_int tw)\<^sup>2)"
    and "\<not> overflows ((gh - M)\<^sup>2)"
  shows "\<exists>cam rw lock rect box.
           detect_tape_rectangle be img W H F L A M s
             = (Inr (cam, rw, True, lock, rect, box), s)
           \<and> CenterOffset rw = - (IPP cam * Offset cam)
           \<and> IPP cam
               = wd * math_cos (radians (2 * camera_angle (snd (snd (minAreaRect be c)))))
                   / of_int tw
           \<and> Offset cam = (of_int tx + of_int tw / 2) - W / 2
           \<and> (lock \<longleftrightarrow> \<bar>CenterOffset rw\<bar> \<le> tol)"
proof -
  let ?rect = "minAreaRect be c"
  obtain cam rw where
    run: "tape_real_world (tx, ty, tw, th) (of_int tw / of_int th) ?rect
            (int0 (boxPoints be ?rect)) W H L M s
          = (Inr (cam, rw, True, \<bar>IPP cam * Offset cam\<bar> \<le> tol, Some ?rect,
                  Some (int0 (boxPoints be ?rect))), s)"
    and cam: "cam = \<lparr>TargetX = tx, TargetY = ty, TargetW = tw, TargetH = th,
                     IPP = wd * math_cos (radians (2 * camera_angle (snd (snd ?rect))))
                             / of_int tw,
                     Offset = (of_int tx + of_int tw / 2) - W / 2\<rparr>"
    and co: "CenterOffset rw = - (IPP cam * Offset cam)"
    using tape_real_world_ok [OF assms(8-10) assms(6) assms(11) assms(12)] by blast
  have "detect_tape_rectangle be img W H F L A M s
          = (Inr (cam, rw, True, \<bar>IPP cam * Offset cam\<bar> \<le> tol, Some ?rect,
                  Some (int0 (boxPoints be ?rect))), s)"
    using detect_tape_found [OF assms(1-7)] run by simp
  moreover have "(\<bar>IPP cam * Offset cam\<bar> \<le> tol) \<longleftrightarrow> \<bar>CenterOffset rw\<bar> \<le> tol"
    using co by simp
  moreover have
    "IPP cam = wd * math_cos (radians (2 * camera_angle (snd (snd ?rect)))) / of_int tw"
    and "Offset cam = (of_int tx + of_int tw / 2) - W / 2"
    using cam by simp_all
  ultimately show ?thesis using co by blast
qed

theorem target_lock_iff_within_tolerance_witness:
  "\<exists>cam rw rect box.
     detect_tape_rectangle test_backend [strip 100] 640 480 60 50 0 10 tape_state
       = (Inr (cam, rw, True, True, rect, box), tape_state)
     \<and> CenterOffset rw = - 2
     \<and> lookup_float (tape_values tape_state) ''LOCKTOLERANCE'' = Inr 2"
proof -
  have big: "contourArea test_backend (strip 100) > of_int 30"
    by (simp add: strip_measures)
  have r1: "\<not> overflows ((4 * math_cos (radians (2 * camera_angle (snd (snd
               (minAreaRect test_backend (strip 100)))))) * 50 / of_int 4)\<^sup>2)"
    by (simp add: strip_faces_camera overflows_def)
  have r2: "\<not> overflows ((90 - 10 :: real)\<^sup>2)"
    by (simp add: overflows_def)
  obtain cam rw lock rect box where
    run: "detect_tape_rectangle test_backend [strip 100] 640 480 60 50 0 10 tape_state
            = (Inr (cam, rw, True, lock, rect, box), tape_state)"
    and co: "CenterOffset rw = - (IPP cam * Offset cam)"
    and ipp: "IPP cam = 4 * math_cos (radians (2 * camera_angle (snd (snd (minAreaRect
                test_backend (strip 100)))))) / of_int 4"
    and off: "Offset cam = (of_int 320 + of_int 4 / 2) - 640 / 2"
    and lock: "lock \<longleftrightarrow> \<bar>CenterOffset rw\<bar> \<le> 2"
    using target_lock_iff_within_tolerance
            [OF tape_state_hsv strip_is_largest tape_state_minarea big strip_measures(1) _ _
                tape_state_floats r1 r2, of 640 480 60 0]
    by auto
  from co ipp off have "CenterOffset rw = - 2"
    by (simp add: strip_faces_camera)
  with run lock tape_state_floats(3) show ?thesis by auto
qed

text \<open>
  C7 (amended). Of all contours only the first one of largest area is evaluated:
  \<open>max\<close> selects it, and the bounding rectangle and rotated rectangle of a call
  that returns a found target are its own. \<open>foundTape\<close> is true exactly when that
  contour's area is strictly greater than \<open>MINAREA\<close>; an area equal to \<open>MINAREA\<close>
  does not qualify. When the area is not greater, the call returns with both flags
  false and the camera fields at their sentinels: 1000 for position and size, 0 for
  \<open>IPP\<close> and \<open>Offset\<close>. When it is greater, every call that returns reports the
  target as found, and the call returns whenever the tape calibration parses, the
  bounding rectangle has non-zero width and height and no square overflows.
\<close>

theorem found_iff_largest_area_exceeds_minarea:
  assumes "hsv_bounds (tape_values s) = Inr (lo, hi)"
    and "process_image_contours be img lo hi = before @ c # after"
    and "\<forall>d \<in> set before. contourArea be d < contourArea be c"
    and "\<forall>d \<in> set after. contourArea be d \<le> contourArea be c"
    and "lookup_int (tape_values s) ''MINAREA'' = Inr m"
  shows "py_max_key (contourArea be) (process_image_contours be img lo hi) = Inr c
     \<and> (\<not> contourArea be c > of_int m \<longrightarrow>
          (\<exists>rw. detect_tape_rectangle be img W H F L A M s
                  = (Inr (camera_sentinels, rw, False, False, None, None), s)))
     \<and> (contourArea be c > of_int m \<longrightarrow>
          (\<forall>cam rw found lock rect box s'.
             detect_tape_rectangle be img W H F L A M s
               = (Inr (cam, rw, found, lock, rect, box), s')
             \<longrightarrow> found
                 \<and> (TargetX cam, TargetY cam, TargetW cam, TargetH cam) = boundingRect be c
                 \<and> rect = Some (minAreaRect be c))
          \<and> (\<forall>tx ty tw th wd gh tol.
                boundingRect be c = (tx, ty, tw, th) \<and> tw \<noteq> 0 \<and> th \<noteq> 0
                \<and> lookup_float (tape_values s) ''TAPEWIDTH'' = Inr wd
                \<and> lookup_float (tape_values s) ''GOALHEIGHT'' = Inr gh
                \<and> lookup_float (tape_values s) ''LOCKTOLERANCE'' = Inr tol
                \<and> \<not> overflows
                      ((wd * math_cos (radians (2 * camera_angle
                                (snd (snd (minAreaRect be c))))) * L / of_int tw)\<^sup>2)
                \<and> \<not> overflows ((gh - M)\<^sup>2)
                \<longrightarrow> (\<exists>cam rw lock rect box.
                       detect_tape_rectangle be img W H F L A M s
                         = (Inr (cam, rw, True, lock, rect, box), s))))"
proof -
  have mx: "py_max_key (contourArea be) (process_image_contours be img lo hi) = Inr c"
    unfolding assms(2) using assms(3,4) by (rule py_max_key_first)
  have small: "\<exists>rw. detect_tape_rectangle be img W H F L A M s
                       = (Inr (camera_sentinels, rw, False, False, None, None), s)"
    if "\<not> contourArea be c > of_int m"
    using detect_tape_too_small [OF assms(1) mx assms(5) that]
    by (simp add: tape_defaults_def camera_sentinels_def)
  have ret: "found
               \<and> (TargetX cam, TargetY cam, TargetW cam, TargetH cam) = boundingRect be c
               \<and> rect = Some (minAreaRect be c)"
    if "contourArea be c > of_int m"
      and "detect_tape_rectangle be img W H F L A M s
             = (Inr (cam, rw, found, lock, rect, box), s')"
    for cam rw found lock rect box s'
    using detect_tape_found_returns [OF assms(1) mx assms(5) that] .
  have tot: "\<exists>cam rw lock rect box.
               detect_tape_rectangle be img W H F L A M s
                 = (Inr (cam, rw, True, lock, rect, box), s)"
    if big: "contourArea be c > of_int m"
      and b: "boundingRect be c = (tx, ty, tw, th)" "tw \<noteq> 0" "th \<noteq> 0"
      and k: "lookup_float (tape_values s) ''TAPEWIDTH'' = Inr wd"
             "lookup_float (tape_values s) ''GOALHEIGHT'' = Inr gh"
             "lookup_float (tape_values s) ''LOCKTOLERANCE'' = Inr tol"
      and r: "\<not> overflows
                 ((wd * math_cos (radians (2 * camera_angle
                           (snd (snd (minAreaRect be c))))) * L / of_int tw)\<^sup>2)"
             "\<not> overflows ((gh - M)\<^sup>2)"
    for tx ty tw th wd gh tol
  proof -
    let ?rect = "minAreaRect be c"
    obtain cam rw where
      "tape_real_world (tx, ty, tw, th) (of_int tw / of_int th) ?rect
         (int0 (boxPoints be ?rect)) W H L M s
       = (Inr (cam, rw, True, \<bar>IPP cam * Offset cam\<bar> \<le> tol, Some ?rect,
               Some (int0 (boxPoints be ?rect))), s)"
      using tape_real_world_ok [OF k b(2) r] by blast
    then have "detect_tape_rectangle be img W H F L A M s
                 = (Inr (cam, rw, True, \<bar>IPP cam * Offset cam\<bar> \<le> tol, Some ?rect,
                         Some (int0 (boxPoints be ?rect))), s)"
      using detect_tape_found [OF assms(1) mx assms(5) big b] by simp
    then show ?thesis by blast
  qed
  from mx small ret tot show ?thesis by blast
qed

theorem found_iff_largest_area_exceeds_minarea_witness:
  "(\<exists>rw. detect_tape_rectangle test_backend [strip 20, strip 29, strip 29] 640 480 60 50 0 10
            (tape_state\<lparr>tape_values := [''HMIN'' \<mapsto> ''50'', ''HMAX'' \<mapsto> ''90'',
               ''SMIN'' \<mapsto> ''100'', ''SMAX'' \<mapsto> ''255'', ''VMIN'' \<mapsto> ''100'',
               ''VMAX'' \<mapsto> ''255'', ''MINAREA'' \<mapsto> ''30'']\<rparr>)
          = (Inr (camera_sentinels, rw, False, False, None, None),
             tape_state\<lparr>tape_values := [''HMIN'' \<mapsto> ''50'', ''HMAX'' \<mapsto> ''90'',
               ''SMIN'' \<mapsto> ''100'', ''SMAX'' \<mapsto> ''255'', ''VMIN'' \<mapsto> ''100'',
               ''VMAX'' \<mapsto> ''255'', ''MINAREA'' \<mapsto> ''30'']\<rparr>))
   \<and> (\<exists>cam rw lock rect box.
        detect_tape_rectangle test_backend [strip 20, tilted 100, strip 100] 640 480 60 50 0 10
          tape_state
        = (Inr (cam, rw, True, lock, rect, box), tape_state))"
proof -
  let ?s = "tape_state\<lparr>tape_values := [''HMIN'' \<mapsto> ''50'', ''HMAX'' \<mapsto> ''90'',
               ''SMIN'' \<mapsto> ''100'', ''SMAX'' \<mapsto> ''255'', ''VMIN'' \<mapsto> ''100'',
               ''VMAX'' \<mapsto> ''255'', ''MINAREA'' \<mapsto> ''30'']\<rparr>"
  have h: "hsv_bounds (tape_values ?s) = Inr ((50, 100, 100), (90, 255, 255))"
    by (simp add: hsv_bounds_def lookup_int_def bindE_def
          py_int_def num_strip_def num_isspace_def parse_signed_def digit_val_def)
  have ma: "lookup_int (tape_values ?s) ''MINAREA'' = Inr 30"
    by (simp add: lookup_int_def
          py_int_def num_strip_def num_isspace_def parse_signed_def digit_val_def)
  have cs: "process_image_contours test_backend [strip 20, strip 29, strip 29]
              (50, 100, 100) (90, 255, 255) = [strip 20] @ strip 29 # [strip 29]"
    by (simp add: test_backend_contours)
  have first:
    "\<exists>rw. detect_tape_rectangle test_backend [strip 20, strip 29, strip 29] 640 480 60 50 0 10 ?s
            = (Inr (camera_sentinels, rw, False, False, None, None), ?s)"
    using found_iff_largest_area_exceeds_minarea [OF h cs _ _ ma, of 640 480 60 50 0 10]
    by (simp add: strip_measures)
  have cs': "process_image_contours test_backend [strip 20, tilted 100, strip 100]
               (50, 100, 100) (90, 255, 255) = [strip 20] @ tilted 100 # [strip 100]"
    by (simp add: test_backend_contours)
  have r1: "\<not> overflows ((4 * math_cos (radians (2 * camera_angle (snd (snd
               (minAreaRect test_backend (tilted 100)))))) * 50 / of_int 4)\<^sup>2)"
    by (simp add: tilted_is_edge_on overflows_def power2_eq_square)
  have r2: "\<not> overflows ((90 - 10 :: real)\<^sup>2)"
    by (simp add: overflows_def)
  have "\<forall>tx ty tw th wd gh tol.
          boundingRect test_backend (tilted 100) = (tx, ty, tw, th) \<and> tw \<noteq> 0 \<and> th \<noteq> 0
          \<and> lookup_float (tape_values tape_state) ''TAPEWIDTH'' = Inr wd
          \<and> lookup_float (tape_values tape_state) ''GOALHEIGHT'' = Inr gh
          \<and> lookup_float (tape_values tape_state) ''LOCKTOLERANCE'' = Inr tol
          \<and> \<not> overflows
                ((wd * math_cos (radians (2 * camera_angle
                          (snd (snd (minAreaRect test_backend (tilted 100)))))) * 50
                    / of_int tw)\<^sup>2)
          \<and> \<not> overflows ((gh - 10)\<^sup>2)
          \<longrightarrow> (\<exists>cam rw lock rect box.
                 detect_tape_rectangle test_backend [strip 20, tilted 100, strip 100]
                   640 480 60 50 0 10 tape_state
                   = (Inr (cam, rw, True, lock, rect, box), tape_state))"
    using found_iff_largest_area_exceeds_minarea
            [OF tape_state_hsv cs' _ _ tape_state_minarea, of 640 480 60 50 0 10]
    by (simp add: strip_measures tilted_measures)
  note total = this [rule_format, of 320 200 4 2 4 90 2]
  have "\<exists>cam rw lock rect box.
          detect_tape_rectangle test_backend [strip 20, tilted 100, strip 100]
            640 480 60 50 0 10 tape_state
            = (Inr (cam, rw, True, lock, rect, box), tape_state)"
    using r1 r2 by (intro total) (simp add: tilted_measures tape_state_floats)
  with first show ?thesis by blast
qed

text \<open>
  The claim as written counts an area that is not below \<open>MINAREA\<close> as found. A single
  contour of area 30 with \<open>MINAREA = 30\<close> is not below the minimum, and the method
  returns its defaults, with \<open>foundTape = False\<close>.
\<close>

theorem area_equal_minarea_counterexample:
  "detect_tape_rectangle test_backend [strip 30] 640 480 60 50 0 10 tape_state
     = (Inr tape_defaults, tape_state)
   \<and> fst (snd (snd tape_defaults)) = False
   \<and> \<not> contourArea test_backend (strip 30) < 30"
proof -
  have "\<not> contourArea test_backend (strip 30) > of_int 30"
    by (simp add: strip_measures)
  then have "detect_tape_rectangle test_backend [strip 30] 640 480 60 50 0 10 tape_state
               = (Inr tape_defaults, tape_state)"
    using detect_tape_too_small [OF tape_state_hsv strip_is_largest tape_state_minarea]
    by simp
  then show ?thesis
    by (simp add: tape_defaults_def strip_measures)
qed

text \<open>
  C10. When no contour is found, or the largest contour's area is not greater than
  \<open>MINAREA\<close>, the rotated rectangle and the box points that \<open>detect_tape_rectangle\<close>
  returns are both \<open>None\<close>, and both flags are false.
\<close>

theorem no_target_returns_none_rect_and_box:
  assumes "hsv_bounds (tape_values s) = Inr (lo, hi)"
    and "process_image_contours be img lo hi = []
           \<or> (py_max_key (contourArea be) (process_image_contours be img lo hi) = Inr c
               \<and> lookup_int (tape_values s) ''MINAREA'' = Inr m
               \<and> \<not> contourArea be c > of_int m)"
  shows "\<exists>cam rw. detect_tape_rectangle be img W H F L A M s
                    = (Inr (cam, rw, False, False, None, None), s)"
proof -
  have "detect_tape_rectangle be img W H F L A M s = (Inr tape_defaults, s)"
  proof (cases "process_image_contours be img lo hi = []")
    case True
    then show ?thesis by (rule detect_tape_no_contours [OF assms(1)])
  next
    case False
    with assms(2) have
      mx: "py_max_key (contourArea be) (process_image_contours be img lo hi) = Inr c"
      and ma: "lookup_int (tape_values s) ''MINAREA'' = Inr m"
      and sm: "\<not> contourArea be c > of_int m"
      by auto
    show ?thesis by (rule detect_tape_too_small [OF assms(1) mx ma sm])
  qed
  then show ?thesis by (simp add: tape_defaults_def)
qed

theorem no_target_returns_none_rect_and_box_witness:
  "(\<exists>cam rw. detect_tape_rectangle test_backend [] 640 480 60 50 0 10 tape_state
               = (Inr (cam, rw, False, False, None, None), tape_state))
   \<and> (\<exists>cam rw. detect_tape_rectangle test_backend [strip 12] 640 480 60 50 0 10 tape_state
               = (Inr (cam, rw, False, False, None, None), tape_state))"
proof -
  have e: "process_image_contours test_backend [] (50, 100, 100) (90, 255, 255) = []"
    by (simp add: test_backend_contours)
  have small: "\<not> contourArea test_backend (strip 12) > of_int 30"
    by (simp add: strip_measures)
  show ?thesis
    using no_target_returns_none_rect_and_box
            [OF tape_state_hsv disjI1, OF e, of 640 480 60 50 0 10]
          no_target_returns_none_rect_and_box
            [OF tape_state_hsv disjI2, OF conjI, OF strip_is_largest conjI,
             OF tape_state_minarea small, of 640 480 60 50 0 10]
    by simp
qed

section \<open>Detection leaves the calibration alone\<close>

lemma reads_only_returnV: "reads_only (returnV v)"
  by (simp add: reads_only_def returnV_def)

lemma reads_only_liftV: "reads_only (liftV r)"
  by (simp add: reads_only_def liftV_def)

lemma reads_only_get_ball: "reads_only (get_ball k)"
  by (simp add: reads_only_def get_ball_def)

lemma reads_only_get_tape: "reads_only (get_tape k)"
  by (simp add: reads_only_def get_tape_def)

lemma reads_only_bindV:
  assumes "reads_only m" and "\<And>v. reads_only (f v)"
  shows "reads_only (bindV m f)"
  unfolding reads_only_def
proof
  fix s
  from assms(1) have ms: "snd (m s) = s" by (simp add: reads_only_def)
  show "snd (bindV m f s) = s"
  proof (cases "fst (m s)")
    case (Inl e)
    with ms have "m s = (Inl e, s)" by (metis prod.collapse)
    then show ?thesis by (simp add: bindV_def)
  next
    case (Inr v)
    with ms have "m s = (Inr v, s)" by (metis prod.collapse)
    moreover from assms(2) have "snd (f v s) = s" by (simp add: reads_only_def)
    ultimately show ?thesis by (simp add: bindV_def)
  qed
qed

lemma reads_only_as_int: "reads_only m \<Longrightarrow> reads_only (as_int m)"
  by (simp add: as_int_def reads_only_bindV reads_only_liftV)

lemma reads_only_as_float: "reads_only m \<Longrightarrow> reads_only (as_float m)"
  by (simp add: as_float_def reads_only_bindV reads_only_liftV)

lemma reads_only_read_hsv:
  assumes "\<And>k. reads_only (get k)"
  shows "reads_only (read_hsv get)"
  unfolding read_hsv_def
  by (intro reads_only_bindV reads_only_as_int assms reads_only_returnV)

lemma reads_only_ball_loop: "reads_only (ball_loop be W H F cs acc)"
proof (induction cs arbitrary: acc)
  case Nil
  show ?case by (simp add: reads_only_def)
next
  case (Cons c cs)
  obtain x y r where circ: "minEnclosingCircle be c = ((x, y), r)"
    by (metis prod.collapse)
  have body: "reads_only
          (bindV (as_int (get_ball ''MINRADIUS'')) (\<lambda>minRadius.
             if r > of_int minRadius then
               bindV (as_float (get_ball ''RADIUS'')) (\<lambda>knownRadius.
               bindV (liftV (ball_metrics knownRadius x y r W H F)) (\<lambda>ballDataDict.
                 ball_loop be W H F cs (fst acc + 1, snd acc @ [ballDataDict])))
             else returnV acc))"
    by (intro reads_only_bindV reads_only_as_int reads_only_get_ball)
       (simp add: reads_only_bindV reads_only_as_float reads_only_get_ball reads_only_liftV
          reads_only_returnV Cons.IH)
  then show ?case
    using circ by (simp add: reads_only_def)
qed

lemma reads_only_detect_game_balls: "reads_only (detect_game_balls be img W H F)"
  unfolding detect_game_balls_def
  by (intro reads_only_bindV reads_only_read_hsv reads_only_get_ball)
     (simp add: Let_def reads_only_ball_loop reads_only_returnV split: prod.splits)

lemma reads_only_tape_real_world:
  "reads_only (tape_real_world bounds ar rect box W H L M)"
proof -
  obtain tx ty tw th where b: "bounds = (tx, ty, tw, th)"
    by (metis prod.collapse)
  show ?thesis
    unfolding tape_real_world_def b
    by (simp add: Let_def reads_only_bindV reads_only_as_float reads_only_get_tape
          reads_only_liftV reads_only_returnV)
qed

lemma reads_only_detect_tape_rectangle:
  "reads_only (detect_tape_rectangle be img W H F L A M)"
  unfolding detect_tape_rectangle_def
  by (intro reads_only_bindV reads_only_read_hsv reads_only_get_tape)
     (simp add: Let_def reads_only_bindV reads_only_as_int reads_only_get_tape
        reads_only_liftV reads_only_returnV reads_only_tape_real_world split: prod.splits)

text \<open>
  C8. Neither detector writes to the calibration: whatever the frame, the camera
  parameters and the outcome (a result or an exception), the state after the call,
  and so each of the ball, goal and tape dictionaries, is the state before it.
\<close>

theorem detection_keeps_calibration:
  "snd (detect_game_balls be img W H F s) = s
     \<and> snd (detect_tape_rectangle be img W H F L A M s) = s
     \<and> ball_values (snd (detect_game_balls be img W H F s)) = ball_values s
     \<and> goal_values (snd (detect_game_balls be img W H F s)) = goal_values s
     \<and> tape_values (snd (detect_game_balls be img W H F s)) = tape_values s
     \<and> ball_values (snd (detect_tape_rectangle be img W H F L A M s)) = ball_values s
     \<and> goal_values (snd (detect_tape_rectangle be img W H F L A M s)) = goal_values s
     \<and> tape_values (snd (detect_tape_rectangle be img W H F L A M s)) = tape_values s"
proof -
  have "snd (detect_game_balls be img W H F s) = s"
    using reads_only_detect_game_balls [of be img W H F] by (simp add: reads_only_def)
  moreover have "snd (detect_tape_rectangle be img W H F L A M s) = s"
    using reads_only_detect_tape_rectangle [of be img W H F L A M]
    by (simp add: reads_only_def)
  ultimately show ?thesis by simp
qed

theorem detection_keeps_calibration_witness:
  "snd (detect_game_balls test_backend three_balls 640 480 45 ball_state) = ball_state
     \<and> snd (detect_tape_rectangle test_backend three_balls 640 480 45 50 0 10 ball_state)
         = ball_state"
  using detection_keeps_calibration [of test_backend three_balls 640 480 45 ball_state 50 0 10]
  by simp

section \<open>Stopping the Navx thread\<close>

lemma stop_navx_when_stopped: "stopped n \<Longrightarrow> stop_navx n = n"
  by (simp add: stop_navx_def)

lemma navx_step_keeps_stopped:
  "navx_step a b \<Longrightarrow> stopped (snd a) \<Longrightarrow> stopped (snd b)"
  by (induction rule: navx_step.induct) (simp_all add: stop_navx_def)

lemma navx_run_keeps_stopped:
  "navx_step\<^sup>*\<^sup>* a b \<Longrightarrow> stopped (snd a) \<Longrightarrow> stopped (snd b)"
  by (induction rule: rtranclp_induct) (auto dest: navx_step_keeps_stopped)

lemma navx_step_after_check:
  assumes "navx_step a b" "stopped (snd a)" "fst a = AtCheck \<or> fst a = Returned"
  shows "snd b = snd a \<and> (fst b = AtCheck \<or> fst b = Returned)"
  using assms by (induction rule: navx_step.induct) (auto simp: stop_navx_when_stopped)

lemma navx_run_after_check:
  assumes "navx_step\<^sup>*\<^sup>* a b" "stopped (snd a)" "fst a = AtCheck \<or> fst a = Returned"
  shows "snd b = snd a \<and> (fst b = AtCheck \<or> fst b = Returned)"
  using assms
proof (induction rule: rtranclp_induct)
  case base
  then show ?case by simp
next
  case (step y z)
  then have y: "snd y = snd a" "fst y = AtCheck \<or> fst y = Returned" by auto
  with step.prems have "stopped (snd y)" by simp
  from navx_step_after_check [OF step.hyps(2) this y(2)] y show ?case by simp
qed

text \<open>
  C9. \<open>stop_navx\<close> is idempotent. After it has been called, in whatever statement the
  polling thread stands, the flag stays set; when the thread next stands at its test
  of the flag, the statement it runs is \<open>return\<close>, and from that test on every state
  the object can reach has the same angle, time and date (in fact the same fields
  altogether), with the thread still at the test or returned.
\<close>

theorem stop_navx_halts_polling:
  assumes "navx_step\<^sup>*\<^sup>* (pc, stop_navx n) (AtCheck, m)"
    and "navx_step\<^sup>*\<^sup>* (AtCheck, m) (pc', m')"
  shows "stop_navx (stop_navx n) = stop_navx n
           \<and> stopped m
           \<and> navx_step (AtCheck, m) (Returned, m)
           \<and> (pc' = AtCheck \<or> pc' = Returned)
           \<and> m' = m
           \<and> navx_angle m' = navx_angle m \<and> navx_time m' = navx_time m
           \<and> navx_date m' = navx_date m"
proof -
  have "stopped (snd (pc, stop_navx n))" by (simp add: stop_navx_def)
  from navx_run_keeps_stopped [OF assms(1) this] have st: "stopped m" by simp
  then have ret: "navx_step (AtCheck, m) (Returned, m)" by (rule check_stopped)
  from navx_run_after_check [OF assms(2)] st
  have "m' = m \<and> (pc' = AtCheck \<or> pc' = Returned)" by simp
  with st ret show ?thesis by (simp add: stop_navx_def)
qed

theorem stop_navx_halts_polling_witness:
  "navx_step\<^sup>*\<^sup>* (AtDate, stop_navx polling_navx)
       (AtCheck, (stop_navx polling_navx)\<lparr>navx_date := [2020, 2, 11, 2]\<rparr>)
     \<and> navx_step\<^sup>*\<^sup>* (AtCheck, (stop_navx polling_navx)\<lparr>navx_date := [2020, 2, 11, 2]\<rparr>)
         (Returned, (stop_navx polling_navx)\<lparr>navx_date := [2020, 2, 11, 2]\<rparr>)
     \<and> stop_navx (stop_navx polling_navx) = stop_navx polling_navx
     \<and> stopped ((stop_navx polling_navx)\<lparr>navx_date := [2020, 2, 11, 2]\<rparr>)"
proof -
  let ?m = "(stop_navx polling_navx)\<lparr>navx_date := [2020, 2, 11, 2]\<rparr>"
  have s1: "navx_step (AtDate, stop_navx polling_navx) (AtSleep, ?m)"
    by (rule read_date)
  have s2: "navx_step (AtSleep, ?m) (AtCheck, ?m)"
    by (rule sleep)
  have run1: "navx_step\<^sup>*\<^sup>* (AtDate, stop_navx polling_navx) (AtCheck, ?m)"
    using s1 s2 by (meson rtranclp.rtrancl_into_rtrancl rtranclp.rtrancl_refl)
  have "stopped ?m" by (simp add: stop_navx_def)
  then have "navx_step (AtCheck, ?m) (Returned, ?m)" by (rule check_stopped)
  then have run2: "navx_step\<^sup>*\<^sup>* (AtCheck, ?m) (Returned, ?m)" by (rule r_into_rtranclp)
  show ?thesis
    using stop_navx_halts_polling [OF run1 run2] run1 run2 by simp
qed


end
